theory Spec2Isabelle
  imports Complex_Main "HOL-Library.AList" "HOL-Library.Log_Nat" "HOL-Library.Code_Target_Nat"
begin

section \<open>Values of the host language\<close>

text \<open>
  A JavaScript string is a sequence of UTF-16 code units; \<open>length\<close>, \<open>split\<close>,
  \<open>replace\<close> and \<open>charCodeAt\<close> all count code units. ASCII literals of the source are
  written \<open>js ''...''\<close>.
\<close>

type_synonym jsstring = "nat list"

abbreviation js :: "string \<Rightarrow> jsstring" where
  "js s \<equiv> map of_char s"

text \<open>What a \<^verbatim>\<open>throw\<close> (or a rejected promise) carries.\<close>

datatype js_error =
    Error jsstring
  | SecurityError
  | QuotaExceededError
  | InvalidCharacterError
  | URIError
  | SyntaxError
  | TypeError
  | AbortError

text \<open>
  A Number is an IEEE 754 binary64 value: a finite double, read as the real it denotes,
  an infinity or NaN. The two zeros are one value here: \<^verbatim>\<open>!\<close>, \<^verbatim>\<open>Math.max\<close>, \<^verbatim>\<open>-\<close>,
  \<^verbatim>\<open>/ 1000\<close>, \<^verbatim>\<open>Math.floor\<close> and \<^verbatim>\<open>>=\<close>, the operations the code applies to numbers, tell
  them apart at most in the sign of a zero they return. \<open>Finite x\<close> is a double when
  \<open>to_double x = Finite x\<close>; the operations return doubles on doubles.
\<close>

datatype number = Finite real | PosInf | NegInf | NaN

text \<open>
  Rounding a real to the nearest double, ties to the even significand, as every
  arithmetic operation does with its exact result. \<open>binade x\<close> is the exponent \<open>e\<close> with
  \<open>2 ^ e \<le> \<bar>x\<bar> < 2 ^ (e + 1)\<close>. The doubles of that binade are the multiples of
  \<open>2 ^ (e - 52)\<close>, and those below \<open>2 ^ (- 1022)\<close>, the subnormals, the multiples of
  \<open>2 ^ (- 1074)\<close>. What rounds to \<open>2 ^ 1024\<close> or beyond is an infinity.
\<close>

definition round_even :: "real \<Rightarrow> int" where
  "round_even y =
     (let f = \<lfloor>y\<rfloor>; d = y - of_int f
      in if d < 1 / 2 then f else if 1 / 2 < d then f + 1 else if even f then f else f + 1)"

definition binade :: "real \<Rightarrow> int" where
  "binade x = (if 1 \<le> \<bar>x\<bar> then bitlen \<lfloor>\<bar>x\<bar>\<rfloor> - 1 else - bitlen (\<lceil>1 / \<bar>x\<bar>\<rceil> - 1))"

definition to_double :: "real \<Rightarrow> number" where
  "to_double x =
     (if x = 0 then Finite 0
      else
        let q = 2 powi (max (binade x) (- 1022) - 52);
            r = of_int (round_even (x / q)) * q
        in if 2 ^ 1024 \<le> r then PosInf else if r \<le> - (2 ^ 1024) then NegInf else Finite r)"

text \<open>\<^verbatim>\<open>Math.max(x, y)\<close>, \<^verbatim>\<open>x - y\<close>, \<^verbatim>\<open>x >= y\<close> and \<^verbatim>\<open>Math.floor(x)\<close> on doubles.\<close>

fun Math_max :: "number \<Rightarrow> number \<Rightarrow> number" where
  "Math_max (Finite a) (Finite b) = Finite (max a b)"
| "Math_max NaN y = NaN"
| "Math_max x NaN = NaN"
| "Math_max PosInf y = PosInf"
| "Math_max x PosInf = PosInf"
| "Math_max NegInf y = y"
| "Math_max x NegInf = x"

fun subtract :: "number \<Rightarrow> number \<Rightarrow> number" where
  "subtract (Finite a) (Finite b) = to_double (a - b)"
| "subtract NaN y = NaN"
| "subtract x NaN = NaN"
| "subtract PosInf PosInf = NaN"
| "subtract NegInf NegInf = NaN"
| "subtract PosInf y = PosInf"
| "subtract NegInf y = NegInf"
| "subtract x PosInf = NegInf"
| "subtract x NegInf = PosInf"

fun greater_equal :: "number \<Rightarrow> number \<Rightarrow> bool" where
  "greater_equal (Finite a) (Finite b) = (b \<le> a)"
| "greater_equal NaN y = False"
| "greater_equal x NaN = False"
| "greater_equal PosInf y = True"
| "greater_equal x NegInf = True"
| "greater_equal NegInf y = False"
| "greater_equal x PosInf = False"

fun Math_floor :: "number \<Rightarrow> number" where
  "Math_floor (Finite x) = Finite (of_int \<lfloor>x\<rfloor>)"
| "Math_floor v = v"

text \<open>\<^verbatim>\<open>x / c\<close> for a finite double \<open>c > 0\<close>.\<close>

fun divide_by :: "number \<Rightarrow> real \<Rightarrow> number" where
  "divide_by (Finite x) c = to_double (x / c)"
| "divide_by v c = v"

text \<open>
  The values \<^verbatim>\<open>JSON.parse\<close> can return. \<open>JNull\<close> is \<^verbatim>\<open>null\<close>; \<^verbatim>\<open>undefined\<close> is the
  \<open>None\<close> of a \<open>json option\<close>.
\<close>

datatype json =
    JNull
  | JBool bool
  | JNum number
  | JStr jsstring
  | JArr "json list"
  | JObj "(jsstring \<times> json) list"

text \<open>\<^verbatim>\<open>!v\<close> and \<^verbatim>\<open>typeof v\<close> on such a value.\<close>

fun falsy :: "json option \<Rightarrow> bool" where
  "falsy None = True"
| "falsy (Some JNull) = True"
| "falsy (Some (JBool b)) = (\<not> b)"
| "falsy (Some (JNum x)) = (x = Finite 0 \<or> x = NaN)"
| "falsy (Some (JStr s)) = (s = [])"
| "falsy (Some (JArr xs)) = False"
| "falsy (Some (JObj kvs)) = False"

fun typeof :: "json option \<Rightarrow> string" where
  "typeof None = ''undefined''"
| "typeof (Some JNull) = ''object''"
| "typeof (Some (JBool b)) = ''boolean''"
| "typeof (Some (JNum x)) = ''number''"
| "typeof (Some (JStr s)) = ''string''"
| "typeof (Some (JArr xs)) = ''object''"
| "typeof (Some (JObj kvs)) = ''object''"

text \<open>
  \<^verbatim>\<open>payload?.exp\<close>: \<^verbatim>\<open>undefined\<close> on \<^verbatim>\<open>null\<close>, the own property of an object, and
  \<^verbatim>\<open>undefined\<close> on every other value (no primitive wrapper, array or \<^verbatim>\<open>Object.prototype\<close>
  has a property called \<^verbatim>\<open>exp\<close>).
\<close>

fun prop_exp :: "json \<Rightarrow> json option" where
  "prop_exp (JObj kvs) = map_of kvs (js ''exp'')"
| "prop_exp v = None"

section \<open>The browser the code runs in\<close>

text \<open>
  \<^verbatim>\<open>window.localStorage\<close>: the stored items, whether reaching the storage object throws
  (a context with storage blocked), and whether a write throws (quota exhausted).
  \<open>None\<close> as a \<open>window\<close> is \<^verbatim>\<open>typeof window === "undefined"\<close>.
\<close>

record local_storage =
  slots :: "(jsstring \<times> jsstring) list"
  access_denied :: bool
  quota_exceeded :: bool

type_synonym window = "local_storage option"

definition getItem :: "local_storage \<Rightarrow> jsstring \<Rightarrow> js_error + jsstring option" where
  "getItem ls k = (if access_denied ls then Inl SecurityError else Inr (map_of (slots ls) k))"

definition setItem :: "local_storage \<Rightarrow> jsstring \<Rightarrow> jsstring \<Rightarrow> js_error + local_storage" where
  "setItem ls k v =
     (if access_denied ls then Inl SecurityError
      else if quota_exceeded ls then Inl QuotaExceededError
      else Inr (ls\<lparr>slots := AList.update k v (slots ls)\<rparr>))"

definition removeItem :: "local_storage \<Rightarrow> jsstring \<Rightarrow> js_error + local_storage" where
  "removeItem ls k =
     (if access_denied ls then Inl SecurityError
      else Inr (ls\<lparr>slots := AList.delete k (slots ls)\<rparr>))"

text \<open>
  The built-in functions the credential helpers call. They are parameters: every
  statement below that mentions a \<open>platform\<close> holds whatever these three return or throw.
\<close>

record platform =
  atob :: "jsstring \<Rightarrow> js_error + jsstring"
  decodeURIComponent :: "jsstring \<Rightarrow> js_error + jsstring"
  JSON_parse :: "jsstring \<Rightarrow> js_error + json"

section \<open>The built-ins as a browser implements them\<close>

subsection \<open>\<^verbatim>\<open>atob\<close>: the forgiving-base64 decode of the WHATWG Infra standard\<close>

definition b64_value :: "nat \<Rightarrow> nat option" where
  "b64_value c =
     (if 65 \<le> c \<and> c \<le> 90 then Some (c - 65)
      else if 97 \<le> c \<and> c \<le> 122 then Some (c - 71)
      else if 48 \<le> c \<and> c \<le> 57 then Some (c + 4)
      else if c = 43 then Some 62
      else if c = 47 then Some 63
      else None)"

text \<open>
  Six bits per character; every 24 bits give three bytes; a rest of 12 bits gives one
  byte and a rest of 18 bits two, the low bits dropped unchecked.
\<close>

fun b64_bytes :: "nat list \<Rightarrow> nat list" where
  "b64_bytes (a # b # c # d # rest) =
     (let n = ((a * 64 + b) * 64 + c) * 64 + d
      in (n div 65536) # (n div 256 mod 256) # (n mod 256) # b64_bytes rest)"
| "b64_bytes [a, b, c] = (let n = ((a * 64 + b) * 64 + c) div 4 in [n div 256, n mod 256])"
| "b64_bytes [a, b] = [(a * 64 + b) div 16]"
| "b64_bytes [a] = []"
| "b64_bytes [] = []"

definition ascii_whitespace :: "nat \<Rightarrow> bool" where
  "ascii_whitespace c = (c = 9 \<or> c = 10 \<or> c = 12 \<or> c = 13 \<or> c = 32)"

definition strip_padding :: "jsstring \<Rightarrow> jsstring" where
  "strip_padding d =
     (if length d mod 4 = 0 then
        (if 2 \<le> length d \<and> last d = 61 \<and> last (butlast d) = 61 then butlast (butlast d)
         else if d \<noteq> [] \<and> last d = 61 then butlast d
         else d)
      else d)"

definition forgiving_base64_decode :: "jsstring \<Rightarrow> jsstring option" where
  "forgiving_base64_decode data =
     (let d = strip_padding (filter (\<lambda>c. \<not> ascii_whitespace c) data) in
      if length d mod 4 = 1 then None
      else (case those (map b64_value d) of
              None \<Rightarrow> None
            | Some sextets \<Rightarrow> Some (b64_bytes sextets)))"

definition browser_atob :: "jsstring \<Rightarrow> js_error + jsstring" where
  "browser_atob data =
     (case forgiving_base64_decode data of
        None \<Rightarrow> Inl InvalidCharacterError
      | Some bytes \<Rightarrow> Inr bytes)"

subsection \<open>\<^verbatim>\<open>decodeURIComponent\<close>: the abstract operation Decode of ECMA-262\<close>

definition hex_value :: "nat \<Rightarrow> nat option" where
  "hex_value c =
     (if 48 \<le> c \<and> c \<le> 57 then Some (c - 48)
      else if 97 \<le> c \<and> c \<le> 102 then Some (c - 87)
      else if 65 \<le> c \<and> c \<le> 70 then Some (c - 55)
      else None)"

text \<open>An escape \<^verbatim>\<open>%XY\<close> at the head of the string: its octet and what follows it.\<close>

definition escape_at :: "jsstring \<Rightarrow> (nat \<times> jsstring) option" where
  "escape_at s =
     (case s of
        p # x # y # rest \<Rightarrow>
          (if p = 37 then
             (case (hex_value x, hex_value y) of
                (Some h, Some l) \<Rightarrow> Some (16 * h + l, rest)
              | _ \<Rightarrow> None)
           else None)
      | _ \<Rightarrow> None)"

fun continuation_octets :: "nat \<Rightarrow> jsstring \<Rightarrow> (nat list \<times> jsstring) option" where
  "continuation_octets 0 s = Some ([], s)"
| "continuation_octets (Suc j) s =
     (case escape_at s of
        None \<Rightarrow> None
      | Some (b, rest) \<Rightarrow>
          (case continuation_octets j rest of
             None \<Rightarrow> None
           | Some (bs, rest') \<Rightarrow> Some (b # bs, rest')))"

definition leading_ones :: "nat \<Rightarrow> nat" where
  "leading_ones b =
     (if b < 128 then 0 else if b < 192 then 1 else if b < 224 then 2
      else if b < 240 then 3 else if b < 248 then 4 else 5)"

definition continuation_byte :: "nat \<Rightarrow> bool" where
  "continuation_byte b = (128 \<le> b \<and> b < 192)"

text \<open>
  The code point of a well-formed UTF-8 sequence of two to four octets; \<open>None\<close> for a
  sequence that is overlong, encodes a surrogate, exceeds U+10FFFF or has a bad
  continuation octet.
\<close>

definition utf8_code_point :: "nat list \<Rightarrow> nat option" where
  "utf8_code_point octets =
     (case octets of
        [b0, b1] \<Rightarrow>
          (let v = (b0 mod 32) * 64 + b1 mod 64 in
           if continuation_byte b1 \<and> 128 \<le> v then Some v else None)
      | [b0, b1, b2] \<Rightarrow>
          (let v = ((b0 mod 16) * 64 + b1 mod 64) * 64 + b2 mod 64 in
           if continuation_byte b1 \<and> continuation_byte b2 \<and> 2048 \<le> v
              \<and> \<not> (55296 \<le> v \<and> v \<le> 57343)
           then Some v else None)
      | [b0, b1, b2, b3] \<Rightarrow>
          (let v = (((b0 mod 8) * 64 + b1 mod 64) * 64 + b2 mod 64) * 64 + b3 mod 64 in
           if continuation_byte b1 \<and> continuation_byte b2 \<and> continuation_byte b3
              \<and> 65536 \<le> v \<and> v \<le> 1114111
           then Some v else None)
      | _ \<Rightarrow> None)"

definition UTF16EncodeCodePoint :: "nat \<Rightarrow> jsstring" where
  "UTF16EncodeCodePoint cp =
     (if cp \<le> 65535 then [cp]
      else [(cp - 65536) div 1024 + 55296, (cp - 65536) mod 1024 + 56320])"

lemma escape_at_shorter: "escape_at s = Some (b, rest) \<Longrightarrow> length rest < length s"
  by (auto simp: escape_at_def split: list.splits if_splits option.splits)

lemma continuation_octets_shorter:
  "continuation_octets j s = Some (bs, rest) \<Longrightarrow> length rest \<le> length s"
proof (induction j arbitrary: s bs rest)
  case 0
  then show ?case by simp
next
  case (Suc j)
  then show ?case
    by (fastforce split: option.splits dest: escape_at_shorter)
qed

function Decode :: "jsstring \<Rightarrow> js_error + jsstring" where
  "Decode [] = Inr []"
| "Decode (c # cs) =
     (if c \<noteq> 37 then
        (case Decode cs of Inl e \<Rightarrow> Inl e | Inr r \<Rightarrow> Inr (c # r))
      else
        (case escape_at (c # cs) of
           None \<Rightarrow> Inl URIError
         | Some (b, rest) \<Rightarrow>
             (let n = leading_ones b in
              if n = 0 then
                (case Decode rest of Inl e \<Rightarrow> Inl e | Inr r \<Rightarrow> Inr (b # r))
              else if n = 1 \<or> 4 < n then Inl URIError
              else
                (case continuation_octets (n - 1) rest of
                   None \<Rightarrow> Inl URIError
                 | Some (octets, rest') \<Rightarrow>
                     (case utf8_code_point (b # octets) of
                        None \<Rightarrow> Inl URIError
                      | Some v \<Rightarrow>
                          (case Decode rest' of
                             Inl e \<Rightarrow> Inl e
                           | Inr r \<Rightarrow> Inr (UTF16EncodeCodePoint v @ r)))))))"
  by pat_completeness auto
termination
proof (relation "measure length")
  show "wf (measure length)" by simp
next
  fix c :: nat and cs :: jsstring
  show "(cs, c # cs) \<in> measure length" by simp
next
  fix c :: nat and cs x2 x y
  assume "escape_at (c # cs) = Some x2" "(x, y) = x2"
  then show "(y, c # cs) \<in> measure length"
    using escape_at_shorter [of "c # cs" x y] by simp
next
  fix c :: nat and cs x2 x y xa x2a xb yb x2b
  assume "escape_at (c # cs) = Some x2" "(x, y) = x2"
    "continuation_octets (xa - 1) y = Some x2a" "(xb, yb) = x2a"
  then show "(yb, c # cs) \<in> measure length"
    using escape_at_shorter [of "c # cs" x y] continuation_octets_shorter [of "xa - 1" y xb yb]
    by simp
qed

declare Decode.simps [simp del]

text \<open>The browser's built-ins around a given \<^verbatim>\<open>JSON.parse\<close>.\<close>

definition browser :: "(jsstring \<Rightarrow> js_error + json) \<Rightarrow> platform" where
  "browser parse = \<lparr>atob = browser_atob, decodeURIComponent = Decode, JSON_parse = parse\<rparr>"

section \<open>String methods used by the source\<close>

text \<open>\<^verbatim>\<open>s.split(sep)\<close> for a one-character separator: never empty, \<^verbatim>\<open>"".split(".")\<close> is \<^verbatim>\<open>[""]\<close>.\<close>

fun split :: "nat \<Rightarrow> jsstring \<Rightarrow> jsstring list" where
  "split sep [] = [[]]"
| "split sep (c # cs) =
     (if c = sep then [] # split sep cs
      else (case split sep cs of [] \<Rightarrow> [[c]] | p # ps \<Rightarrow> (c # p) # ps))"

text \<open>\<^verbatim>\<open>s.replace(/a/g, "b")\<close> for single characters.\<close>

definition replaceAll :: "nat \<Rightarrow> nat \<Rightarrow> jsstring \<Rightarrow> jsstring" where
  "replaceAll a b s = map (\<lambda>c. if c = a then b else c) s"

definition hex_digit :: "nat \<Rightarrow> nat" where
  "hex_digit d = (if d < 10 then 48 + d else 87 + d)"

text \<open>\<^verbatim>\<open>n.toString(radix)\<close> for a non-negative integer; \<^verbatim>\<open>`${n}`\<close> is \<open>toString 10 n\<close>.\<close>

function toString :: "nat \<Rightarrow> nat \<Rightarrow> jsstring" where
  "toString radix n =
     (if n < radix \<or> radix < 2 then [hex_digit n]
      else toString radix (n div radix) @ [hex_digit (n mod radix)])"
  by pat_completeness auto
termination
  by (relation "measure snd") auto

declare toString.simps [simp del]

definition padStart :: "nat \<Rightarrow> nat \<Rightarrow> jsstring \<Rightarrow> jsstring" where
  "padStart n c s = replicate (n - length s) c @ s"

section \<open>lib/auth: token store, credential decoder, expiry evaluator\<close>

definition TOKEN_KEY :: jsstring where
  "TOKEN_KEY = js ''glpi_manutencao_token''"

definition getToken :: "window \<Rightarrow> js_error + jsstring option" where
  "getToken w =
     (case w of
        None \<Rightarrow> Inr None
      | Some ls \<Rightarrow>
          (case getItem ls TOKEN_KEY of
             Inl e \<Rightarrow> Inr None
           | Inr v \<Rightarrow> Inr v))"

definition setToken :: "window \<Rightarrow> jsstring \<Rightarrow> js_error + window" where
  "setToken w token =
     (case w of
        None \<Rightarrow> Inr None
      | Some ls \<Rightarrow>
          (case setItem ls TOKEN_KEY token of
             Inl e \<Rightarrow> Inl e
           | Inr ls' \<Rightarrow> Inr (Some ls')))"

definition clearToken :: "window \<Rightarrow> js_error + window" where
  "clearToken w =
     (case w of
        None \<Rightarrow> Inr None
      | Some ls \<Rightarrow>
          (case removeItem ls TOKEN_KEY of
             Inl e \<Rightarrow> Inl e
           | Inr ls' \<Rightarrow> Inr (Some ls')))"

text \<open>\<^verbatim>\<open>"%" + c.charCodeAt(0).toString(16).padStart(2, "0")\<close>\<close>

definition percent :: "nat \<Rightarrow> jsstring" where
  "percent c = of_char CHR ''%'' # padStart 2 (of_char CHR ''0'') (toString 16 c)"

text \<open>The local constant \<^verbatim>\<open>normalized\<close> of \<^verbatim>\<open>base64UrlDecode\<close>.\<close>

definition normalized :: "jsstring \<Rightarrow> jsstring" where
  "normalized input =
     (let pad = length input mod 4 in
      replaceAll (of_char CHR ''_'') (of_char CHR ''/'')
        (replaceAll (of_char CHR ''-'') (of_char CHR ''+'')
           (if pad \<noteq> 0 then input @ replicate (4 - pad) (of_char CHR ''='') else input)))"

text \<open>The \<^verbatim>\<open>try\<close> block turns whatever \<^verbatim>\<open>atob\<close> or \<^verbatim>\<open>decodeURIComponent\<close> throws into \<^verbatim>\<open>""\<close>.\<close>

definition base64UrlDecode :: "platform \<Rightarrow> jsstring \<Rightarrow> js_error + jsstring" where
  "base64UrlDecode P input =
     (case (case atob P (normalized input) of
              Inl e \<Rightarrow> Inl e
            | Inr bin \<Rightarrow> decodeURIComponent P (concat (map percent bin))) of
        Inl e \<Rightarrow> Inr []
      | Inr s \<Rightarrow> Inr s)"

text \<open>
  \<open>token\<close> is the optional argument: \<open>None\<close> is \<^verbatim>\<open>null\<close> or \<^verbatim>\<open>undefined\<close> (also an
  omitted argument), the only values for which \<^verbatim>\<open>??\<close> evaluates its right operand.
\<close>

definition getTokenPayload :: "platform \<Rightarrow> window \<Rightarrow> jsstring option \<Rightarrow> js_error + json" where
  "getTokenPayload P w token =
     (case (case token of None \<Rightarrow> getToken w | Some s \<Rightarrow> Inr (Some s)) of
        Inl e \<Rightarrow> Inl e
      | Inr None \<Rightarrow> Inr JNull
      | Inr (Some t) \<Rightarrow>
          if t = [] then Inr JNull
          else
            let parts = split (of_char CHR ''.'') t in
            if length parts < 2 then Inr JNull
            else
              (case base64UrlDecode P (parts ! 1) of
                 Inl e \<Rightarrow> Inl e
               | Inr json \<Rightarrow>
                   if json = [] then Inr JNull
                   else
                     (case JSON_parse P json of
                        Inl e \<Rightarrow> Inr JNull
                      | Inr v \<Rightarrow> Inr v)))"

text \<open>
  \<open>date_now\<close> is the time value \<^verbatim>\<open>Date.now()\<close> returns: a whole number of milliseconds
  since the epoch, negative on a clock set before 1970, and as a Number the double
  nearest to it (the integer itself up to \<open>2 ^ 53\<close>, which is beyond the 8.64e15 that
  bounds a time value). \<open>skewSeconds\<close> is \<open>None\<close> when the argument is omitted or
  \<^verbatim>\<open>undefined\<close>, the case in which the default applies.
\<close>

definition isTokenExpired ::
  "platform \<Rightarrow> window \<Rightarrow> int \<Rightarrow> jsstring option \<Rightarrow> number option \<Rightarrow> js_error + bool" where
  "isTokenExpired P w date_now token skewSeconds =
     (let skew = (case skewSeconds of None \<Rightarrow> Finite 30 | Some s \<Rightarrow> s) in
      case getTokenPayload P w token of
        Inl e \<Rightarrow> Inl e
      | Inr payload \<Rightarrow>
          let exp = prop_exp payload in
          if falsy exp \<or> typeof exp \<noteq> ''number'' then Inr True
          else
            (case exp of
               Some (JNum x) \<Rightarrow>
                 let now = Math_floor (divide_by (to_double (of_int date_now)) 1000) in
                 Inr (greater_equal now (subtract x (Math_max (Finite 0) skew)))
             | _ \<Rightarrow> Inr True))"

text \<open>
  The condition of the specification, in its words and over the reals: the claims are
  \<^verbatim>\<open>null\<close>, or \<^verbatim>\<open>exp\<close> is missing or not a number, or the current time in seconds is at
  least \<^verbatim>\<open>exp\<close> minus the skew, where the skew is 30 by default and at least 0.
\<close>

definition expired_as_specified :: "json \<Rightarrow> int \<Rightarrow> real option \<Rightarrow> bool" where
  "expired_as_specified claims now_seconds skew =
     (case prop_exp claims of
        Some (JNum (Finite x)) \<Rightarrow>
          x - max 0 (case skew of None \<Rightarrow> 30 | Some s \<Rightarrow> s) \<le> of_int now_seconds
      | Some (JNum PosInf) \<Rightarrow> False
      | _ \<Rightarrow> True)"

section \<open>Requests and responses\<close>

text \<open>
  The second argument of \<^verbatim>\<open>fetch\<close>, field by field; \<open>signal\<close> says whether an
  \<^verbatim>\<open>AbortSignal\<close> was passed.
\<close>

record request =
  url :: jsstring
  http_method :: "jsstring option"
  headers :: "(jsstring \<times> jsstring) list"
  body :: "jsstring option"
  cache :: "jsstring option"
  signal :: bool

text \<open>\<open>json_body\<close> is what \<^verbatim>\<open>res.json()\<close> settles to.\<close>

record response =
  status :: nat
  json_body :: "js_error + json"

definition ok :: "response \<Rightarrow> bool" where
  "ok res = (200 \<le> status res \<and> status res \<le> 299)"

text \<open>How the promise returned by \<^verbatim>\<open>fetch\<close> settles.\<close>

datatype fetch_result = Fulfilled response | Rejected js_error

section \<open>The API module: \<^verbatim>\<open>getBaseUrl\<close> and the fetch wrappers\<close>

text \<open>
  What the module reads from its surroundings: the environment value, two built-ins and
  the network, which answers each request. An \<^verbatim>\<open>async\<close> function is modelled by how its
  promise settles (\<open>Inl\<close> is a rejection) together with the requests it issued.
\<close>

record api =
  NEXT_PUBLIC_PY_API_URL :: "jsstring option"
  encodeURIComponent :: "jsstring \<Rightarrow> js_error + jsstring"
  JSON_stringify :: "json \<Rightarrow> jsstring"
  fetch :: "request \<Rightarrow> fetch_result"

type_synonym 'a settled = "(js_error + 'a) \<times> request list"

text \<open>The message of the configuration error; code unit 227 is the a with tilde.\<close>

definition not_configured :: jsstring where
  "not_configured = js ''NEXT_PUBLIC_PY_API_URL n'' @ [227] @ js ''o configurada''"

definition getBaseUrl :: "api \<Rightarrow> js_error + jsstring" where
  "getBaseUrl A =
     (case NEXT_PUBLIC_PY_API_URL A of
        None \<Rightarrow> Inl (Error not_configured)
      | Some py \<Rightarrow> if py = [] then Inl (Error not_configured) else Inr py)"

text \<open>
  \<^verbatim>\<open>`${n}`\<close> for an identifier that is a whole number below \<open>10 ^ 21\<close> in magnitude,
  the numbers that are printed in positional decimal.
\<close>

definition String_int :: "int \<Rightarrow> jsstring" where
  "String_int i = (if i < 0 then of_char CHR ''-'' # toString 10 (nat (- i)) else toString 10 (nat i))"

text \<open>
  The common tail of every wrapper, written out in each of them in the source:
  \<^verbatim>\<open>const res = await fetch(url, init); if (!res.ok) throw new Error(`${msg}${res.status}`);\<close>
  followed by \<^verbatim>\<open>return res.json()\<close> or by nothing.
\<close>

definition fetch_checked :: "api \<Rightarrow> request \<Rightarrow> jsstring \<Rightarrow> js_error + response" where
  "fetch_checked A req msg =
     (case fetch A req of
        Rejected e \<Rightarrow> Inl e
      | Fulfilled res \<Rightarrow>
          if \<not> ok res then Inl (Error (msg @ toString 10 (status res))) else Inr res)"

definition returning_json :: "js_error + response \<Rightarrow> js_error + json" where
  "returning_json r = (case r of Inl e \<Rightarrow> Inl e | Inr res \<Rightarrow> json_body res)"

definition returning_nothing :: "js_error + response \<Rightarrow> js_error + unit" where
  "returning_nothing r = (case r of Inl e \<Rightarrow> Inl e | Inr res \<Rightarrow> Inr ())"

definition json_headers :: "(jsstring \<times> jsstring) list" where
  "json_headers = [(js ''Content-Type'', js ''application/json'')]"

text \<open>\<^verbatim>\<open>`${getBaseUrl()}/api/devices/${encodeURIComponent(deviceId)}`\<close> and what may follow it.\<close>

definition device_url :: "api \<Rightarrow> jsstring \<Rightarrow> jsstring \<Rightarrow> js_error + jsstring" where
  "device_url A deviceId suffix =
     (case getBaseUrl A of
        Inl e \<Rightarrow> Inl e
      | Inr base \<Rightarrow>
          (case encodeURIComponent A deviceId of
             Inl e \<Rightarrow> Inl e
           | Inr d \<Rightarrow> Inr (base @ js ''/api/devices/'' @ d @ suffix)))"

definition maintenance_url :: "api \<Rightarrow> jsstring \<Rightarrow> js_error + jsstring" where
  "maintenance_url A suffix =
     (case getBaseUrl A of
        Inl e \<Rightarrow> Inl e
      | Inr base \<Rightarrow> Inr (base @ js ''/api/maintenance'' @ suffix))"

definition getDeviceDetail :: "api \<Rightarrow> jsstring \<Rightarrow> json settled" where
  "getDeviceDetail A deviceId =
     (case device_url A deviceId [] of
        Inl e \<Rightarrow> (Inl e, [])
      | Inr u \<Rightarrow>
          let req = \<lparr>url = u, http_method = None, headers = [], body = None,
                     cache = Some (js ''no-store''), signal = False\<rparr>
          in (returning_json (fetch_checked A req (js ''Falha ao carregar device: '')), [req]))"

definition getDeviceComponents :: "api \<Rightarrow> jsstring \<Rightarrow> json settled" where
  "getDeviceComponents A deviceId =
     (case device_url A deviceId (js ''/components'') of
        Inl e \<Rightarrow> (Inl e, [])
      | Inr u \<Rightarrow>
          let req = \<lparr>url = u, http_method = None, headers = [], body = None,
                     cache = Some (js ''no-store''), signal = False\<rparr>
          in (returning_json (fetch_checked A req (js ''Falha ao carregar componentes: '')), [req]))"

definition getDeviceNotes :: "api \<Rightarrow> jsstring \<Rightarrow> json settled" where
  "getDeviceNotes A deviceId =
     (case device_url A deviceId (js ''/notes'') of
        Inl e \<Rightarrow> (Inl e, [])
      | Inr u \<Rightarrow>
          let req = \<lparr>url = u, http_method = None, headers = [], body = None,
                     cache = Some (js ''no-store''), signal = False\<rparr>
          in (returning_json (fetch_checked A req (js ''Falha ao carregar notas: '')), [req]))"

definition createDeviceNote :: "api \<Rightarrow> jsstring \<Rightarrow> json \<Rightarrow> json settled" where
  "createDeviceNote A deviceId payload =
     (case device_url A deviceId (js ''/notes'') of
        Inl e \<Rightarrow> (Inl e, [])
      | Inr u \<Rightarrow>
          let req = \<lparr>url = u, http_method = Some (js ''POST''), headers = json_headers,
                     body = Some (JSON_stringify A payload), cache = None, signal = False\<rparr>
          in (returning_json (fetch_checked A req (js ''Falha ao criar nota: '')), [req]))"

definition updateDeviceNote :: "api \<Rightarrow> jsstring \<Rightarrow> int \<Rightarrow> json \<Rightarrow> json settled" where
  "updateDeviceNote A deviceId noteId payload =
     (case device_url A deviceId (js ''/notes/'' @ String_int noteId) of
        Inl e \<Rightarrow> (Inl e, [])
      | Inr u \<Rightarrow>
          let req = \<lparr>url = u, http_method = Some (js ''PUT''), headers = json_headers,
                     body = Some (JSON_stringify A payload), cache = None, signal = False\<rparr>
          in (returning_json (fetch_checked A req (js ''Falha ao atualizar nota: '')), [req]))"

definition deleteDeviceNote :: "api \<Rightarrow> jsstring \<Rightarrow> int \<Rightarrow> unit settled" where
  "deleteDeviceNote A deviceId noteId =
     (case device_url A deviceId (js ''/notes/'' @ String_int noteId) of
        Inl e \<Rightarrow> (Inl e, [])
      | Inr u \<Rightarrow>
          let req = \<lparr>url = u, http_method = Some (js ''DELETE''), headers = [], body = None,
                     cache = None, signal = False\<rparr>
          in (returning_nothing (fetch_checked A req (js ''Falha ao deletar nota: '')), [req]))"

definition getDeviceMaintenance :: "api \<Rightarrow> jsstring \<Rightarrow> json settled" where
  "getDeviceMaintenance A deviceId =
     (case device_url A deviceId (js ''/maintenance'') of
        Inl e \<Rightarrow> (Inl e, [])
      | Inr u \<Rightarrow>
          let req = \<lparr>url = u, http_method = None, headers = [], body = None,
                     cache = Some (js ''no-store''), signal = False\<rparr>
          in (returning_json
                (fetch_checked A req (js ''Falha ao carregar manuten'' @ [231, 245] @ js ''es: '')),
              [req]))"

definition createMaintenance :: "api \<Rightarrow> json \<Rightarrow> json settled" where
  "createMaintenance A payload =
     (case maintenance_url A [] of
        Inl e \<Rightarrow> (Inl e, [])
      | Inr u \<Rightarrow>
          let req = \<lparr>url = u, http_method = Some (js ''POST''), headers = json_headers,
                     body = Some (JSON_stringify A payload), cache = None, signal = False\<rparr>
          in (returning_json
                (fetch_checked A req (js ''Falha ao criar manuten'' @ [231, 227] @ js ''o: '')),
              [req]))"

definition updateMaintenance :: "api \<Rightarrow> int \<Rightarrow> json \<Rightarrow> json settled" where
  "updateMaintenance A maintenanceId payload =
     (case maintenance_url A (of_char CHR ''/'' # String_int maintenanceId) of
        Inl e \<Rightarrow> (Inl e, [])
      | Inr u \<Rightarrow>
          let req = \<lparr>url = u, http_method = Some (js ''PUT''), headers = json_headers,
                     body = Some (JSON_stringify A payload), cache = None, signal = False\<rparr>
          in (returning_json
                (fetch_checked A req (js ''Falha ao atualizar manuten'' @ [231, 227] @ js ''o: '')),
              [req]))"

definition deleteMaintenance :: "api \<Rightarrow> int \<Rightarrow> unit settled" where
  "deleteMaintenance A maintenanceId =
     (case maintenance_url A (of_char CHR ''/'' # String_int maintenanceId) of
        Inl e \<Rightarrow> (Inl e, [])
      | Inr u \<Rightarrow>
          let req = \<lparr>url = u, http_method = Some (js ''DELETE''), headers = [], body = None,
                     cache = None, signal = False\<rparr>
          in (returning_nothing
                (fetch_checked A req (js ''Falha ao deletar manuten'' @ [231, 227] @ js ''o: '')),
              [req]))"

section \<open>AppFrame: the session guard of a page instance\<close>

text \<open>
  One mounted \<^verbatim>\<open>AppFrame\<close>: the two pieces of component state (\<open>is_checking\<close> is the
  state variable \<^verbatim>\<open>checking\<close>), the browser storage it
  shares with the rest of the page, the calls made to \<^verbatim>\<open>router.replace\<close> and to
  \<^verbatim>\<open>fetch\<close> (oldest first), and whether its verification request is still unsettled.
\<close>

record page =
  win :: window
  is_checking :: bool
  me :: json
  replaced :: "jsstring list"
  fetches :: "request list"
  in_flight :: bool

text \<open>\<^verbatim>\<open>useState(!isLogin)\<close>, \<^verbatim>\<open>useState(null)\<close>\<close>

definition mount :: "bool \<Rightarrow> window \<Rightarrow> page" where
  "mount isLogin w =
     \<lparr>win = w, is_checking = (\<not> isLogin), me = JNull, replaced = [], fetches = [], in_flight = False\<rparr>"

text \<open>\<^verbatim>\<open>!token\<close> for \<^verbatim>\<open>string | null\<close>\<close>

definition no_token :: "jsstring option \<Rightarrow> bool" where
  "no_token t = (t = None \<or> t = Some [])"

text \<open>\<^verbatim>\<open>.catch(() => { clearToken(); router.replace("/login"); })\<close>, also the body of the first guard.\<close>

definition clear_and_login :: "page \<Rightarrow> js_error + page" where
  "clear_and_login pg =
     (case clearToken (win pg) of
        Inl e \<Rightarrow> Inl e
      | Inr w' \<Rightarrow> Inr (pg\<lparr>win := w', replaced := replaced pg @ [js ''/login'']\<rparr>))"

definition me_request :: "jsstring \<Rightarrow> jsstring \<Rightarrow> request" where
  "me_request base token =
     \<lparr>url = base @ js ''/api/auth/me'', http_method = None,
      headers = [(js ''Authorization'', js ''Bearer '' @ token)], body = None,
      cache = Some (js ''no-store''), signal = True\<rparr>"

text \<open>
  The body of the effect, up to the point where it returns. \<open>base\<close> is
  \<^verbatim>\<open>process.env.NEXT_PUBLIC_PY_API_URL\<close>. \<open>Inl\<close> is an exception leaving the effect; nothing
  has been changed when that happens.
\<close>

definition effect ::
  "platform \<Rightarrow> jsstring option \<Rightarrow> int \<Rightarrow> bool \<Rightarrow> page \<Rightarrow> js_error + page" where
  "effect P base date_now isLogin pg =
     (if isLogin then
        (case getToken (win pg) of
           Inl e \<Rightarrow> Inl e
         | Inr t \<Rightarrow>
             (case (if no_token t then Inr True else isTokenExpired P (win pg) date_now t None) of
                Inl e \<Rightarrow> Inl e
              | Inr expired \<Rightarrow>
                  Inr ((if \<not> no_token t \<and> \<not> expired
                        then pg\<lparr>replaced := replaced pg @ [js ''/'']\<rparr> else pg)
                       \<lparr>is_checking := False\<rparr>)))
      else
        (case getToken (win pg) of
           Inl e \<Rightarrow> Inl e
         | Inr token \<Rightarrow>
             (case (if no_token token then Inr True
                    else isTokenExpired P (win pg) date_now token None) of
                Inl e \<Rightarrow> Inl e
              | Inr expired \<Rightarrow>
                  if no_token token \<or> expired then clear_and_login pg
                  else
                    (case (base, token) of
                       (Some b, Some tk) \<Rightarrow>
                         if b = [] then Inr (pg\<lparr>is_checking := False\<rparr>)
                         else
                           Inr (pg\<lparr>is_checking := True,
                                   fetches := fetches pg @ [me_request b tk],
                                   in_flight := True\<rparr>)
                     | _ \<Rightarrow> Inr (pg\<lparr>is_checking := False\<rparr>)))))"

text \<open>
  The chain \<^verbatim>\<open>.then(...).then(...).catch(...)\<close> once the promise of \<^verbatim>\<open>fetch\<close> has
  settled: the first handler yields the parsed body or throws, the second stores it,
  and the last one receives whatever was thrown or rejected before it.
\<close>

definition first_then :: "fetch_result \<Rightarrow> js_error + json" where
  "first_then r =
     (case r of
        Rejected e \<Rightarrow> Inl e
      | Fulfilled res \<Rightarrow>
          if status res = 401 then Inl (Error (js ''unauthorized''))
          else if \<not> ok res then Inl (Error (js ''status:'' @ toString 10 (status res)))
          else json_body res)"

definition settle :: "fetch_result \<Rightarrow> page \<Rightarrow> js_error + page" where
  "settle r pg =
     (if \<not> in_flight pg then Inr pg
      else
        (case first_then r of
           Inr data \<Rightarrow> Inr (pg\<lparr>me := data, is_checking := False, in_flight := False\<rparr>)
         | Inl e \<Rightarrow> clear_and_login (pg\<lparr>in_flight := False\<rparr>)))"

text \<open>
  The cleanup \<^verbatim>\<open>() => ctrl.abort()\<close>, run when the page instance is torn down: a request
  that has not settled yet is cancelled, and \<^verbatim>\<open>fetch\<close> then rejects its promise with an
  \<^verbatim>\<open>AbortError\<close>.
\<close>

definition cleanup :: "page \<Rightarrow> js_error + page" where
  "cleanup pg = (if in_flight pg then settle (Rejected AbortError) pg else Inr pg)"

text \<open>\<^verbatim>\<open>onLogout\<close>\<close>

definition onLogout :: "page \<Rightarrow> js_error + page" where
  "onLogout pg = clear_and_login pg"

section \<open>Issuing a credential\<close>

text \<open>
  Modelled from the spec: the side that issues credentials is not among the sources, so
  the encoding of a claims record is written from the spec's words: the JSON text of
  the record, its UTF-8 bytes, URL-safe base64 of these (\<^verbatim>\<open>-\<close> for \<^verbatim>\<open>+\<close>, \<^verbatim>\<open>_\<close> for \<^verbatim>\<open>/\<close>,
  padding removed), placed as the second dot-separated segment. A text is a list of
  Unicode scalar values; \<open>utf16_encode\<close> is the same text as a JavaScript string.
\<close>

definition scalar_value :: "nat \<Rightarrow> bool" where
  "scalar_value cp = (cp < 55296 \<or> (57343 < cp \<and> cp \<le> 1114111))"

definition utf8_encode_cp :: "nat \<Rightarrow> nat list" where
  "utf8_encode_cp cp =
     (if cp < 128 then [cp]
      else if cp < 2048 then [192 + cp div 64, 128 + cp mod 64]
      else if cp < 65536 then [224 + cp div 4096, 128 + cp div 64 mod 64, 128 + cp mod 64]
      else [240 + cp div 262144, 128 + cp div 4096 mod 64, 128 + cp div 64 mod 64,
            128 + cp mod 64])"

definition utf8_encode :: "nat list \<Rightarrow> nat list" where
  "utf8_encode cps = concat (map utf8_encode_cp cps)"

definition utf16_encode :: "nat list \<Rightarrow> jsstring" where
  "utf16_encode cps = concat (map UTF16EncodeCodePoint cps)"

text \<open>Standard base64: six bits per character, \<^verbatim>\<open>=\<close> up to a multiple of four characters.\<close>

definition b64_char :: "nat \<Rightarrow> nat" where
  "b64_char i =
     (if i < 26 then 65 + i else if i < 52 then 71 + i else if i < 62 then i - 4
      else if i = 62 then 43 else 47)"

fun sextets :: "nat list \<Rightarrow> nat list" where
  "sextets (a # b # c # rest) =
     a div 4 # (a mod 4 * 16 + b div 16) # (b mod 16 * 4 + c div 64) # c mod 64 # sextets rest"
| "sextets [a, b] = [a div 4, a mod 4 * 16 + b div 16, b mod 16 * 4]"
| "sextets [a] = [a div 4, a mod 4 * 16]"
| "sextets [] = []"

definition base64_encode :: "nat list \<Rightarrow> jsstring" where
  "base64_encode bytes =
     map b64_char (sextets bytes) @ replicate ((3 - length bytes mod 3) mod 3) 61"

definition to_url :: "nat \<Rightarrow> nat" where
  "to_url c = (if c = 43 then 45 else if c = 47 then 95 else c)"

definition base64url_encode :: "nat list \<Rightarrow> jsstring" where
  "base64url_encode bytes = filter (\<lambda>c. c \<noteq> 61) (map to_url (base64_encode bytes))"

text \<open>\<open>stringify\<close> is the issuer's JSON serialiser, giving the text of a claims record.\<close>

definition encode_claims :: "(json \<Rightarrow> nat list) \<Rightarrow> json \<Rightarrow> jsstring" where
  "encode_claims stringify claims = base64url_encode (utf8_encode (stringify claims))"

definition credential :: "jsstring \<Rightarrow> jsstring \<Rightarrow> jsstring \<Rightarrow> jsstring" where
  "credential header payload signature =
     header @ of_char CHR ''.'' # payload @ of_char CHR ''.'' # signature"

text \<open>The two \<^verbatim>\<open>replace\<close> calls of \<open>normalized\<close>, seen as one map over the characters.\<close>

definition from_url :: "nat \<Rightarrow> nat" where
  "from_url c = (if c = 45 then 43 else if c = 95 then 47 else c)"

section \<open>Sample inputs\<close>

text \<open>
  A claims record with characters outside ASCII (code unit 227 is the a with tilde, 8364
  the euro sign, and 55357, 56832 the surrogate pair of U+1F600), its JSON text, and a
  stand-in for \<^verbatim>\<open>JSON.parse\<close> that knows two texts and throws on every other.
\<close>

definition sample_claims :: json where
  "sample_claims = JObj [(js ''sub'', JStr (js ''Jo'' @ [227] @ js ''o'' @ [8364, 55357, 56832]))]"

definition sample_JSON_stringify :: "json \<Rightarrow> nat list" where
  \<open>sample_JSON_stringify v =
     (if v = sample_claims then js ''{"sub":"Jo'' @ [227] @ js ''o'' @ [8364, 128512] @ js ''"}''
      else js ''null'')\<close>

definition sample_JSON_parse :: "jsstring \<Rightarrow> js_error + json" where
  \<open>sample_JSON_parse s =
     (if s = js ''{"exp":1700000000}'' then Inr (JObj [(js ''exp'', JNum (Finite 1700000000))])
      else if s = js ''{"sub":"Jo'' @ [227] @ js ''o'' @ [8364, 55357, 56832] @ js ''"}''
      then Inr sample_claims
      else Inl SyntaxError)\<close>

text \<open>A credential whose second segment is the URL-safe base64 of the first of these texts.\<close>

definition sample_token :: jsstring where
  "sample_token = js ''eyJhbGciOiJIUzI1NiJ9.eyJleHAiOjE3MDAwMDAwMDB9.c2ln''"

definition sample_window :: window where
  "sample_window =
     Some \<lparr>slots = [(TOKEN_KEY, sample_token)], access_denied = False, quota_exceeded = False\<rparr>"

text \<open>
  Credentials whose \<^verbatim>\<open>exp\<close> is 0, 1 and 1700000001, and a stand-in for \<^verbatim>\<open>JSON.parse\<close>
  that knows the texts of their claims.
\<close>

definition exp_JSON_parse :: "jsstring \<Rightarrow> js_error + json" where
  \<open>exp_JSON_parse s =
     (if s = js ''{"exp":0}'' then Inr (JObj [(js ''exp'', JNum (Finite 0))])
      else if s = js ''{"exp":1}'' then Inr (JObj [(js ''exp'', JNum (Finite 1))])
      else if s = js ''{"exp":1700000001}'' then Inr (JObj [(js ''exp'', JNum (Finite 1700000001))])
      else Inl SyntaxError)\<close>

definition epoch_token :: jsstring where
  "epoch_token = js ''eyJhbGciOiJIUzI1NiJ9.eyJleHAiOjB9.c2ln''"

definition old_token :: jsstring where
  "old_token = js ''eyJhbGciOiJIUzI1NiJ9.eyJleHAiOjF9.c2ln''"

definition late_token :: jsstring where
  "late_token = js ''eyJhbGciOiJIUzI1NiJ9.eyJleHAiOjE3MDAwMDAwMDF9.c2ln''"

text \<open>A browsing context in which every access to the storage object throws.\<close>

definition blocked_window :: window where
  "blocked_window = Some \<lparr>slots = [], access_denied = True, quota_exceeded = False\<rparr>"

text \<open>
  A protected page that has sent its verification request, and the same page after the
  failure handler has run.
\<close>

definition sample_base :: jsstring where
  "sample_base = js ''http://localhost:8000''"

definition verifying_page :: page where
  "verifying_page =
     \<lparr>win = sample_window, is_checking = True, me = JNull, replaced = [],
      fetches = [me_request sample_base sample_token], in_flight = True\<rparr>"

definition logged_out_page :: page where
  "logged_out_page =
     \<lparr>win = Some \<lparr>slots = [], access_denied = False, quota_exceeded = False\<rparr>,
      is_checking = True, me = JNull, replaced = [js ''/login''],
      fetches = [me_request sample_base sample_token], in_flight = False\<rparr>"

definition sample_api :: api where
  "sample_api =
     \<lparr>NEXT_PUBLIC_PY_API_URL = None, encodeURIComponent = Inr,
      JSON_stringify = (\<lambda>v. js ''{}''), fetch = (\<lambda>req. Rejected TypeError)\<rparr>"

section \<open>Rounding to doubles\<close>

lemma round_even_near:
  assumes "\<bar>d\<bar> < 1 / 2"
  shows "round_even (of_int k + d) = k"
proof (cases "0 \<le> d")
  case True
  then have "\<lfloor>of_int k + d\<rfloor> = k" using assms by (simp add: floor_unique)
  then show ?thesis using assms True by (simp add: round_even_def)
next
  case False
  then have f: "\<lfloor>of_int k + d\<rfloor> = k - 1" using assms by (intro floor_unique) auto
  show ?thesis using assms False by (simp add: round_even_def f Let_def)
qed

lemma round_even_of_int: "round_even (of_int k) = k"
  using round_even_near [of 0 k] by simp

lemma round_even_error: "\<bar>of_int (round_even y) - y\<bar> \<le> 1 / 2"
proof -
  have "of_int \<lfloor>y\<rfloor> \<le> y" "y < of_int \<lfloor>y\<rfloor> + 1" by linarith+
  then show ?thesis by (auto simp: round_even_def Let_def)
qed

lemma powi_neg: "0 \<le> k \<Longrightarrow> (2::real) powi (- k) = 1 / 2 ^ nat k"
  by (simp add: power_int_minus_divide power_int_nonneg_exp)

lemma binade_bounds:
  assumes "x \<noteq> 0"
  shows "2 powi (binade x) \<le> \<bar>x\<bar>" and "\<bar>x\<bar> < 2 powi (binade x + 1)"
proof -
  have "2 powi (binade x) \<le> \<bar>x\<bar> \<and> \<bar>x\<bar> < 2 powi (binade x + 1)"
  proof (cases "1 \<le> \<bar>x\<bar>")
    case True
    define m where "m = \<lfloor>\<bar>x\<bar>\<rfloor>"
    have m: "0 < m" "of_int m \<le> \<bar>x\<bar>" "\<bar>x\<bar> < of_int m + 1"
      unfolding m_def using True by linarith+
    have b: "2 ^ nat (bitlen m - 1) \<le> m" "m < 2 ^ nat (bitlen m)"
      using bitlen_bounds [OF m(1)] by simp_all
    have k: "1 \<le> bitlen m" using m(1) bitlen_eq_zero_iff [of m] bitlen_nonneg [of m] by linarith
    have e: "binade x = bitlen m - 1" using True by (simp add: binade_def m_def)
    have "(2::real) powi (bitlen m - 1) = of_int (2 ^ nat (bitlen m - 1))"
      using k by (simp add: power_int_nonneg_exp)
    also have "\<dots> \<le> of_int m" using b(1) by linarith
    finally have lo: "2 powi (binade x) \<le> \<bar>x\<bar>" using m(2) e by simp
    have "m + 1 \<le> 2 ^ nat (bitlen m)" using b(2) by simp
    then have "of_int (m + 1) \<le> (of_int (2 ^ nat (bitlen m)) :: real)" by linarith
    moreover have "(2::real) powi (bitlen m - 1 + 1) = of_int (2 ^ nat (bitlen m))"
      using k by (simp add: power_int_nonneg_exp)
    ultimately have hi: "\<bar>x\<bar> < 2 powi (binade x + 1)" using m(3) e by simp
    show ?thesis using lo hi ..
  next
    case False
    define y where "y = 1 / \<bar>x\<bar>"
    define n where "n = \<lceil>y\<rceil> - 1"
    have x: "0 < \<bar>x\<bar>" "\<bar>x\<bar> < 1" using assms False by simp_all
    then have y: "1 < y" by (simp add: y_def)
    have n: "0 < n" "of_int n < y" "y \<le> of_int n + 1"
      unfolding n_def using y by linarith+
    have b: "2 ^ nat (bitlen n - 1) \<le> n" "n < 2 ^ nat (bitlen n)"
      using bitlen_bounds [OF n(1)] by simp_all
    have k: "1 \<le> bitlen n" using n(1) bitlen_eq_zero_iff [of n] bitlen_nonneg [of n] by linarith
    have e: "binade x = - bitlen n" using False by (simp add: binade_def n_def y_def)
    have xy: "\<bar>x\<bar> = 1 / y" by (simp add: y_def)
    have "n + 1 \<le> 2 ^ nat (bitlen n)" using b(2) by simp
    then have "of_int (n + 1) \<le> (of_int (2 ^ nat (bitlen n)) :: real)" by linarith
    then have yu: "y \<le> 2 ^ nat (bitlen n)" using n(3) by simp
    have "(2::real) powi (- bitlen n) = 1 / 2 ^ nat (bitlen n)"
      using k powi_neg [of "bitlen n"] by simp
    also have "\<dots> \<le> 1 / y" using yu y by (intro divide_left_mono) auto
    finally have lo: "2 powi (binade x) \<le> \<bar>x\<bar>" using e xy by simp
    have "(2::real) ^ nat (bitlen n - 1) \<le> of_int n"
      using b(1) of_int_le_iff [of "2 ^ nat (bitlen n - 1)" n, where ?'a = real] by simp
    then have yl: "2 ^ nat (bitlen n - 1) < y" using n(2) by linarith
    have "1 / y < 1 / 2 ^ nat (bitlen n - 1)"
      using yl y by (intro divide_strict_left_mono) (auto intro!: mult_pos_pos)
    also have "\<dots> = (2::real) powi (- (bitlen n - 1))"
      using k powi_neg [of "bitlen n - 1"] by simp
    finally have hi: "\<bar>x\<bar> < 2 powi (binade x + 1)" using e xy by simp
    show ?thesis using lo hi ..
  qed
  then show "2 powi (binade x) \<le> \<bar>x\<bar>" and "\<bar>x\<bar> < 2 powi (binade x + 1)" by simp_all
qed

lemma binade_eq:
  assumes "2 powi e \<le> \<bar>x\<bar>" "\<bar>x\<bar> < 2 powi (e + 1)"
  shows "binade x = e"
proof -
  have p: "0 < (2::real) powi e" by simp
  have "0 < \<bar>x\<bar>" using p assms(1) by linarith
  then have x: "x \<noteq> 0" by simp
  have "(2::real) powi (binade x) < 2 powi (e + 1)"
    using binade_bounds(1) [OF x] assms(2) by linarith
  then have 1: "binade x < e + 1"
    using power_int_increasing [of "e + 1" "binade x" "2::real"] by (cases "binade x < e + 1") auto
  have "(2::real) powi e < 2 powi (binade x + 1)"
    using binade_bounds(2) [OF x] assms(1) by linarith
  then have 2: "e < binade x + 1"
    using power_int_increasing [of "binade x + 1" e "2::real"] by (cases "e < binade x + 1") auto
  show ?thesis using 1 2 by linarith
qed

lemma binade_less:
  assumes "x \<noteq> 0" "\<bar>x\<bar> < 2 powi k"
  shows "binade x < k"
proof (rule ccontr)
  assume "\<not> binade x < k"
  then have "(2::real) powi k \<le> 2 powi (binade x)" by (intro power_int_increasing) auto
  then show False using binade_bounds(1) [OF assms(1)] assms(2) by linarith
qed

lemma to_double_error:
  assumes "x \<noteq> 0"
  shows "\<bar>of_int (round_even (x / 2 powi k)) * 2 powi k - x\<bar> \<le> 2 powi k / 2"
proof -
  have q: "0 < (2::real) powi k" by simp
  have "\<bar>of_int (round_even (x / 2 powi k)) - x / 2 powi k\<bar> * 2 powi k \<le> 1 / 2 * 2 powi k"
    using round_even_error [of "x / 2 powi k"] q by (intro mult_right_mono) auto
  moreover have "\<bar>of_int (round_even (x / 2 powi k)) - x / 2 powi k\<bar> * 2 powi k
      = \<bar>of_int (round_even (x / 2 powi k)) * 2 powi k - x\<bar>"
  proof -
    have "(of_int (round_even (x / 2 powi k)) - x / 2 powi k) * 2 powi k
        = of_int (round_even (x / 2 powi k)) * 2 powi k - x"
      using q by (simp add: left_diff_distrib)
    then have "\<bar>of_int (round_even (x / 2 powi k)) * 2 powi k - x\<bar>
        = \<bar>of_int (round_even (x / 2 powi k)) - x / 2 powi k\<bar> * \<bar>(2::real) powi k\<bar>"
      by (metis abs_mult)
    then show ?thesis using q by simp
  qed
  ultimately show ?thesis by simp
qed

text \<open>A real that is a multiple of the spacing of its binade is a double.\<close>

lemma to_double_exact:
  assumes "x \<noteq> 0" "x / 2 powi (max (binade x) (- 1022) - 52) = of_int k" "\<bar>x\<bar> < 2 ^ 1024"
  shows "to_double x = Finite x"
proof -
  let ?q = "(2::real) powi (max (binade x) (- 1022) - 52)"
  have q: "?q \<noteq> 0" by simp
  have "of_int (round_even (x / ?q)) * ?q = x"
    unfolding assms(2) round_even_of_int using assms(2) q by (metis nonzero_divide_eq_eq)
  moreover have "\<not> 2 ^ 1024 \<le> x" "\<not> x \<le> - (2 ^ 1024)" using assms(3) by linarith+
  ultimately show ?thesis using assms(1) by (simp only: to_double_def Let_def if_False)
qed

text \<open>The integers below \<open>2 ^ 53\<close> in magnitude are doubles.\<close>

lemma to_double_of_int:
  assumes "\<bar>n\<bar> < 2 ^ 53"
  shows "to_double (of_int n) = Finite (of_int n)"
proof (cases "n = 0")
  case True
  then show ?thesis by (simp add: to_double_def)
next
  case False
  let ?x = "of_int n :: real"
  let ?e = "binade ?x"
  have x: "?x \<noteq> 0" using False by simp
  have a: "\<bar>?x\<bar> < 2 powi 53" using assms by (simp flip: of_int_abs)
  have u: "?e < 53" using binade_less [OF x a] .
  have "1 \<le> \<bar>?x\<bar>" using False by (simp flip: of_int_abs)
  then have "(2::real) powi 0 < 2 powi (?e + 1)" using binade_bounds(2) [OF x] by simp
  then have l: "0 \<le> ?e"
    using power_int_increasing [of "?e + 1" 0 "2::real"] by (cases "0 \<le> ?e") auto
  have m: "max ?e (- 1022) - 52 = - (52 - ?e)" using l by simp
  have "?x / 2 powi (max ?e (- 1022) - 52) = of_int (n * 2 ^ nat (52 - ?e))"
    unfolding m using powi_neg [of "52 - ?e"] u by simp
  moreover have "\<bar>?x\<bar> < 2 ^ 1024"
  proof -
    have "(2::real) powi 53 \<le> 2 powi 1024" by (intro power_int_increasing) auto
    then show ?thesis using a by simp
  qed
  ultimately show ?thesis using to_double_exact [OF x] by blast
qed

text \<open>
  A real in a normal binade \<open>e\<close> whose quotient by the spacing \<open>2 ^ (e - 52)\<close> is less than
  half away from an integer \<open>n\<close> rounds to \<open>n\<close> times the spacing.
\<close>

lemma to_double_nearest:
  assumes "2 powi e \<le> \<bar>x\<bar>" "\<bar>x\<bar> < 2 powi (e + 1)" "- 1022 \<le> e"
    and "x / 2 powi (e - 52) = of_int n + d" "\<bar>d\<bar> < 1 / 2"
    and "\<bar>of_int n * (2::real) powi (e - 52)\<bar> < 2 ^ 1024"
  shows "to_double x = Finite (of_int n * 2 powi (e - 52))"
proof -
  have "0 < (2::real) powi e" by simp
  then have "0 < \<bar>x\<bar>" using assms(1) by linarith
  then have x: "x \<noteq> 0" by simp
  have b: "max (binade x) (- 1022) - 52 = e - 52"
    using binade_eq [OF assms(1,2)] assms(3) by simp
  have r: "round_even (x / 2 powi (e - 52)) = n"
    unfolding assms(4) using round_even_near [OF assms(5)] .
  have "\<not> 2 ^ 1024 \<le> of_int n * (2::real) powi (e - 52)"
    "\<not> of_int n * (2::real) powi (e - 52) \<le> - (2 ^ 1024)"
    using assms(6) by linarith+
  then show ?thesis using x by (simp only: to_double_def Let_def b r if_False)
qed

lemma abs_div_1000: "\<bar>t div 1000\<bar> \<le> \<bar>t :: int\<bar>"
proof -
  have "t = 1000 * (t div 1000) + t mod 1000" "0 \<le> t mod 1000" "t mod 1000 < 1000"
    by simp_all
  then show ?thesis by linarith
qed

text \<open>
  \<^verbatim>\<open>Math.floor(Date.now() / 1000)\<close> is the floor of the exact quotient: the division
  rounds by less than 1/2048, too little to cross a whole number from a multiple of
  1/1000 that is not one.
\<close>

lemma clock_seconds:
  assumes "\<bar>t\<bar> \<le> 8640000000000000"
  shows "Math_floor (divide_by (to_double (of_int t)) 1000) = Finite (of_int (t div 1000))"
proof -
  have "\<bar>t\<bar> < 2 ^ 53" using assms by simp
  then have t: "to_double (of_int t) = Finite (of_int t)" by (rule to_double_of_int)
  have "Math_floor (to_double (of_int t / 1000)) = Finite (of_int (t div 1000))"
  proof (cases "t mod 1000 = 0")
    case True
    then have "of_int t / 1000 = (of_int (t div 1000) :: real)"
      by (metis of_int_numeral real_of_int_div dvd_eq_mod_eq_0)
    moreover have "\<bar>t div 1000\<bar> < 2 ^ 53" using assms abs_div_1000 [of t] by simp
    ultimately show ?thesis by (simp add: to_double_of_int)
  next
    case False
    define m where "m = t div 1000"
    define f where "f = t mod 1000"
    define x where "x = (of_int t / 1000 :: real)"
    have "0 \<le> t mod 1000" "t mod 1000 < 1000" by simp_all
    then have f: "1 \<le> f" "f \<le> 999" using False unfolding f_def by linarith+
    have tm: "t = 1000 * m + f" by (simp add: m_def f_def)
    have xm: "x = of_int m + of_int f / 1000" by (simp add: x_def tm)
    have lo: "of_int m + 1 / 1000 \<le> x" and hi: "x \<le> of_int m + 999 / 1000"
      using f by (simp_all add: xm)
    have x0: "x \<noteq> 0"
    proof
      assume "x = 0"
      then have "(of_int m :: real) < 0" "(- 1 :: real) < of_int m" using lo hi by linarith+
      then have "m < 0" "- 1 < m" by linarith+
      then show False by linarith
    qed
    have "\<bar>x\<bar> \<le> 8640000000000" using assms by (simp add: x_def)
    then have "\<bar>x\<bar> < 2 powi 43" by simp
    then have e: "binade x < 43" using binade_less [OF x0] by blast
    define k where "k = max (binade x) (- 1022) - 52"
    define r where "r = of_int (round_even (x / 2 powi k)) * (2::real) powi k"
    have "k \<le> - 10" using e by (simp add: k_def)
    then have "(2::real) powi k \<le> 2 powi (- 10)" by (intro power_int_increasing) auto
    then have q: "(2::real) powi k / 2 \<le> 1 / 2048" by simp
    have err: "\<bar>r - x\<bar> \<le> 1 / 2048" using to_double_error [OF x0, of k] q by (simp add: r_def)
    have r1: "of_int m < r" "r < of_int m + 1" using err lo hi by linarith+
    then have fl: "\<lfloor>r\<rfloor> = m" by (simp add: floor_unique)
    have "\<bar>of_int m :: real\<bar> \<le> 8640000000000"
      using assms abs_div_1000 [of t] by (simp add: m_def flip: of_int_abs)
    then have "\<bar>r\<bar> < 2 ^ 1024" using r1 by (simp add: abs_less_iff) linarith
    then have "\<not> 2 ^ 1024 \<le> r" "\<not> r \<le> - (2 ^ 1024)" by linarith+
    then have "to_double x = Finite r"
      using x0 by (simp only: to_double_def Let_def k_def [symmetric] r_def [symmetric] if_False)
    then show ?thesis by (simp add: x_def [symmetric] fl m_def)
  qed
  then show ?thesis by (simp add: t)
qed

lemma subtract_NaN: "subtract x NaN = NaN"
  by (cases x) simp_all

lemma greater_equal_NaN: "greater_equal x NaN = False"
  by (cases x) simp_all

section \<open>Never-throwing helpers\<close>

lemma getToken_not_Inl: "getToken w \<noteq> Inl e"
  by (simp add: getToken_def split: option.split sum.split)

lemma base64UrlDecode_not_Inl: "base64UrlDecode P input \<noteq> Inl e"
  by (simp add: base64UrlDecode_def split: sum.split)

lemma getTokenPayload_not_Inl: "getTokenPayload P w token \<noteq> Inl e"
  by (simp add: getTokenPayload_def Let_def getToken_not_Inl base64UrlDecode_not_Inl
      split: option.split sum.split)

lemma getTokenPayload_total: "\<exists>v. getTokenPayload P w token = Inr v"
  by (cases "getTokenPayload P w token") (simp_all add: getTokenPayload_not_Inl)

lemma split_nonempty: "split sep s \<noteq> []"
  by (induction s) (auto split: list.splits)

lemma isTokenExpired_not_Inl: "isTokenExpired P w n token skew \<noteq> Inl e"
  by (simp add: isTokenExpired_def Let_def getTokenPayload_not_Inl
      split: option.split json.split sum.split)

lemma getTokenPayload_Some:
  "getTokenPayload P w (Some t) =
     (if t = [] \<or> length (split (of_char CHR ''.'') t) < 2 then Inr JNull
      else case base64UrlDecode P (split (of_char CHR ''.'') t ! 1) of
             Inl e \<Rightarrow> Inl e
           | Inr text \<Rightarrow>
               if text = [] then Inr JNull
               else (case JSON_parse P text of Inl e \<Rightarrow> Inr JNull | Inr v \<Rightarrow> Inr v))"
  by (simp add: getTokenPayload_def Let_def)

lemma two_segments_nonempty: "2 \<le> length (split sep t) \<Longrightarrow> t \<noteq> []"
  by auto

section \<open>Expiry on whole seconds\<close>

lemma isTokenExpired_default:
  "isTokenExpired P w t token None = isTokenExpired P w t token (Some (Finite 30))"
  by (simp add: isTokenExpired_def)

text \<open>
  For a whole number of seconds as \<^verbatim>\<open>exp\<close>, other than 0, and a whole skew, no operation
  of the evaluator rounds.
\<close>

lemma isTokenExpired_on_integers:
  assumes "getTokenPayload P w token = Inr payload"
    and "prop_exp payload = Some (JNum (Finite (of_int a)))" "a \<noteq> 0"
    and "\<bar>a\<bar> < 2 ^ 52" "\<bar>k\<bar> < 2 ^ 52" "\<bar>t\<bar> \<le> 8640000000000000"
  shows "isTokenExpired P w t token (Some (Finite (of_int k))) = Inr (a - max 0 k \<le> t div 1000)"
proof -
  have "\<bar>a - max 0 k\<bar> < 2 ^ 53" using assms(4,5) by simp
  then have "to_double (of_int (a - max 0 k)) = Finite (of_int (a - max 0 k))"
    by (rule to_double_of_int)
  moreover have "(of_int a :: real) - max 0 (of_int k) = of_int (a - max 0 k)"
    by (simp add: max_def)
  ultimately have s: "to_double (of_int a - max 0 (of_int k)) = Finite (of_int (a - max 0 k))"
    by simp
  have "isTokenExpired P w t token (Some (Finite (of_int k)))
      = Inr (greater_equal (Finite (of_int (t div 1000))) (Finite (of_int (a - max 0 k))))"
    using assms(1,2,3) by (simp add: isTokenExpired_def s clock_seconds [OF assms(6)])
  then show ?thesis by (simp only: greater_equal.simps of_int_le_iff)
qed

lemma sample_token_claims:
  "getTokenPayload (browser sample_JSON_parse) w (Some sample_token)
     = Inr (JObj [(js ''exp'', JNum (Finite 1700000000))])"
proof -
  have "getTokenPayload (browser sample_JSON_parse) None (Some sample_token)
     = Inr (JObj [(js ''exp'', JNum (Finite 1700000000))])"
    by code_simp
  then show ?thesis by (simp add: getTokenPayload_Some)
qed

lemma sample_token_unexpired:
  "isTokenExpired (browser sample_JSON_parse) w 1600000000000 (Some sample_token) None = Inr False"
  using isTokenExpired_on_integers [OF sample_token_claims, of 1700000000 30 1600000000000 w]
  by (simp add: isTokenExpired_default)

section \<open>Token store\<close>

lemma store_without_window:
  "getToken None = Inr None \<and> setToken None t = Inr None \<and> clearToken None = Inr None"
  by (simp add: getToken_def setToken_def clearToken_def)

lemma store_working:
  assumes "\<not> access_denied ls" "\<not> quota_exceeded ls"
  shows "\<exists>ls'. setToken (Some ls) t = Inr (Some ls') \<and> getToken (Some ls') = Inr (Some t)"
    and "\<exists>ls'. clearToken (Some ls) = Inr (Some ls') \<and> getToken (Some ls') = Inr None
           \<and> clearToken (Some ls') = Inr (Some ls')"
  using assms
  by (simp_all add: setToken_def clearToken_def getToken_def setItem_def removeItem_def
      getItem_def update_conv' delete_conv' delete_idem)

text \<open>
  Claim C3. With storage that throws on access, \<^verbatim>\<open>getToken\<close> returns \<^verbatim>\<open>null\<close>, but
  \<^verbatim>\<open>clearToken\<close> and \<^verbatim>\<open>setToken\<close> let the exception escape; \<^verbatim>\<open>setToken\<close> also throws when
  the write itself is refused.
\<close>

theorem store_writes_throw:
  "getToken blocked_window = Inr None
   \<and> clearToken blocked_window = Inl SecurityError
   \<and> setToken blocked_window sample_token = Inl SecurityError
   \<and> setToken (Some \<lparr>slots = [], access_denied = False, quota_exceeded = True\<rparr>) sample_token
       = Inl QuotaExceededError"
  by (simp add: blocked_window_def getToken_def clearToken_def setToken_def getItem_def
      removeItem_def setItem_def)

section \<open>Credential decoder\<close>

text \<open>
  Claim C7. The credential decoder never raises, whatever the built-ins do: it always
  returns a value. It returns \<^verbatim>\<open>null\<close> for a string with fewer than two dot-separated
  segments, when \<^verbatim>\<open>atob\<close> rejects the second segment, when the decoded bytes are not
  UTF-8 (\<^verbatim>\<open>decodeURIComponent\<close> throws), and when \<^verbatim>\<open>JSON.parse\<close> throws on the text.
\<close>

theorem decoder_never_raises:
  "(\<exists>v. getTokenPayload P w token = Inr v)
   \<and> (length (split (of_char CHR ''.'') t) < 2 \<longrightarrow> getTokenPayload P w (Some t) = Inr JNull)
   \<and> (atob P (normalized (split (of_char CHR ''.'') t ! 1)) = Inl e
        \<longrightarrow> getTokenPayload P w (Some t) = Inr JNull)
   \<and> (atob P (normalized (split (of_char CHR ''.'') t ! 1)) = Inr bin
        \<and> decodeURIComponent P (concat (map percent bin)) = Inl e
        \<longrightarrow> getTokenPayload P w (Some t) = Inr JNull)
   \<and> (base64UrlDecode P (split (of_char CHR ''.'') t ! 1) = Inr text
        \<and> JSON_parse P text = Inl e
        \<longrightarrow> getTokenPayload P w (Some t) = Inr JNull)"
proof (intro conjI impI)
  show "\<exists>v. getTokenPayload P w token = Inr v" by (rule getTokenPayload_total)
next
  assume "length (split (of_char CHR ''.'') t) < 2"
  then show "getTokenPayload P w (Some t) = Inr JNull" by (simp add: getTokenPayload_Some)
next
  assume "atob P (normalized (split (of_char CHR ''.'') t ! 1)) = Inl e"
  then have "base64UrlDecode P (split (of_char CHR ''.'') t ! 1) = Inr []"
    by (simp add: base64UrlDecode_def)
  then show "getTokenPayload P w (Some t) = Inr JNull" by (simp add: getTokenPayload_Some)
next
  assume "atob P (normalized (split (of_char CHR ''.'') t ! 1)) = Inr bin
        \<and> decodeURIComponent P (concat (map percent bin)) = Inl e"
  then have "base64UrlDecode P (split (of_char CHR ''.'') t ! 1) = Inr []"
    by (simp add: base64UrlDecode_def)
  then show "getTokenPayload P w (Some t) = Inr JNull" by (simp add: getTokenPayload_Some)
next
  assume "base64UrlDecode P (split (of_char CHR ''.'') t ! 1) = Inr text \<and> JSON_parse P text = Inl e"
  then show "getTokenPayload P w (Some t) = Inr JNull" by (simp add: getTokenPayload_Some)
qed

theorem decoder_never_raises_witness:
  "length (split (of_char CHR ''.'') (js ''abc'')) < 2
   \<and> getTokenPayload (browser sample_JSON_parse) None (Some (js ''abc'')) = Inr JNull
   \<and> browser_atob (normalized (split (of_char CHR ''.'') (js ''h.#.s'') ! 1)) = Inl InvalidCharacterError
   \<and> getTokenPayload (browser sample_JSON_parse) None (Some (js ''h.#.s'')) = Inr JNull
   \<and> browser_atob (normalized (split (of_char CHR ''.'') (js ''h.gA.s'') ! 1)) = Inr [128]
   \<and> Decode (concat (map percent [128])) = Inl URIError
   \<and> getTokenPayload (browser sample_JSON_parse) None (Some (js ''h.gA.s'')) = Inr JNull
   \<and> base64UrlDecode (browser sample_JSON_parse) (split (of_char CHR ''.'') (js ''h.bm9wZQ.s'') ! 1) = Inr (js ''nope'')
   \<and> sample_JSON_parse (js ''nope'') = Inl SyntaxError
   \<and> getTokenPayload (browser sample_JSON_parse) None (Some (js ''h.bm9wZQ.s'')) = Inr JNull"
proof -
  have h1: "length (split (of_char CHR ''.'') (js ''abc'')) < 2" by code_simp
  have h2: "atob (browser sample_JSON_parse) (normalized (split (of_char CHR ''.'') (js ''h.#.s'') ! 1)) = Inl InvalidCharacterError"
    by code_simp
  have h3: "atob (browser sample_JSON_parse) (normalized (split (of_char CHR ''.'') (js ''h.gA.s'') ! 1)) = Inr [128]
     \<and> decodeURIComponent (browser sample_JSON_parse) (concat (map percent [128])) = Inl URIError"
    by code_simp
  have h4: "base64UrlDecode (browser sample_JSON_parse) (split (of_char CHR ''.'') (js ''h.bm9wZQ.s'') ! 1) = Inr (js ''nope'')
     \<and> JSON_parse (browser sample_JSON_parse) (js ''nope'') = Inl SyntaxError"
    by code_simp
  show ?thesis
    using h1 h2 h3 h4
      decoder_never_raises [of "browser sample_JSON_parse" None None "js ''abc''"]
      decoder_never_raises [of "browser sample_JSON_parse" None None "js ''h.#.s''" InvalidCharacterError]
      decoder_never_raises [of "browser sample_JSON_parse" None None "js ''h.gA.s''" URIError "[128]"]
      decoder_never_raises [of "browser sample_JSON_parse" None None "js ''h.bm9wZQ.s''" SyntaxError _ "js ''nope''"]
    by (simp add: browser_def)
qed

text \<open>
  Claim C9. Two credentials with at least two dot-separated segments each and the same
  second segment decode to the same claims: the first segment, the later segments and
  their number play no part (nor does the token store).
\<close>

theorem decoder_reads_second_segment_only:
  "2 \<le> length (split (of_char CHR ''.'') t) \<Longrightarrow> 2 \<le> length (split (of_char CHR ''.'') t')
   \<Longrightarrow> split (of_char CHR ''.'') t ! 1 = split (of_char CHR ''.'') t' ! 1
   \<Longrightarrow> getTokenPayload P w (Some t) = getTokenPayload P w' (Some t')"
proof -
  assume a: "2 \<le> length (split (of_char CHR ''.'') t)" "2 \<le> length (split (of_char CHR ''.'') t')"
    and b: "split (of_char CHR ''.'') t ! 1 = split (of_char CHR ''.'') t' ! 1"
  from a have "t \<noteq> []" "t' \<noteq> []" by auto
  with a b show ?thesis by (simp add: getTokenPayload_Some)
qed

theorem decoder_reads_second_segment_only_witness:
  "2 \<le> length (split (of_char CHR ''.'') sample_token)
   \<and> 2 \<le> length (split (of_char CHR ''.'') (js ''x.eyJleHAiOjE3MDAwMDAwMDB9''))
   \<and> split (of_char CHR ''.'') sample_token ! 1
       = split (of_char CHR ''.'') (js ''x.eyJleHAiOjE3MDAwMDAwMDB9'') ! 1
   \<and> getTokenPayload (browser sample_JSON_parse) None (Some sample_token)
       = getTokenPayload (browser sample_JSON_parse) blocked_window
           (Some (js ''x.eyJleHAiOjE3MDAwMDAwMDB9''))"
proof -
  have h1: "2 \<le> length (split (of_char CHR ''.'') sample_token)" by code_simp
  have h2: "2 \<le> length (split (of_char CHR ''.'') (js ''x.eyJleHAiOjE3MDAwMDAwMDB9''))"
    by code_simp
  have h3: "split (of_char CHR ''.'') sample_token ! 1
       = split (of_char CHR ''.'') (js ''x.eyJleHAiOjE3MDAwMDAwMDB9'') ! 1"
    by code_simp
  show ?thesis
    using h1 h2 h3 decoder_reads_second_segment_only [OF h1 h2 h3] by simp
qed

text \<open>
  Claim C10. The decoder and the expiry evaluator consult the token store only for a
  \<^verbatim>\<open>null\<close> or \<^verbatim>\<open>undefined\<close> argument, where they behave as on the stored credential.
  For a string argument the result is the same whatever the storage holds or does, and
  for the empty string it is \<^verbatim>\<open>null\<close> claims and expired.
\<close>

theorem store_fallback_only_for_nullish:
  "getTokenPayload P w (Some []) = Inr JNull
   \<and> isTokenExpired P w date_now (Some []) skew = Inr True
   \<and> getTokenPayload P w (Some t) = getTokenPayload P w' (Some t)
   \<and> isTokenExpired P w date_now (Some t) skew = isTokenExpired P w' date_now (Some t) skew
   \<and> (\<exists>stored. getToken w = Inr stored
        \<and> getTokenPayload P w None =
            (case stored of None \<Rightarrow> Inr JNull | Some s \<Rightarrow> getTokenPayload P w' (Some s))
        \<and> isTokenExpired P w date_now None skew =
            (case stored of None \<Rightarrow> Inr True | Some s \<Rightarrow> isTokenExpired P w' date_now (Some s) skew))"
proof -
  have indep: "getTokenPayload P w (Some t) = getTokenPayload P w' (Some t)" for t w w'
    by (simp add: getTokenPayload_Some)
  have indep': "isTokenExpired P w date_now (Some t) skew = isTokenExpired P w' date_now (Some t) skew"
    for t w w'
    by (simp add: isTokenExpired_def indep [of w t w'])
  have empty: "getTokenPayload P w (Some []) = Inr JNull"
    by (simp add: getTokenPayload_Some)
  then have empty': "isTokenExpired P w date_now (Some []) skew = Inr True"
    by (simp add: isTokenExpired_def)
  obtain stored where st: "getToken w = Inr stored"
    by (cases "getToken w") (simp_all add: getToken_not_Inl)
  have fb: "getTokenPayload P w None =
      (case stored of None \<Rightarrow> Inr JNull | Some s \<Rightarrow> getTokenPayload P w' (Some s))"
    using st by (simp add: getTokenPayload_def split: option.split)
  then have fb': "isTokenExpired P w date_now None skew =
      (case stored of None \<Rightarrow> Inr True | Some s \<Rightarrow> isTokenExpired P w' date_now (Some s) skew)"
    by (simp add: isTokenExpired_def split: option.split)
  show ?thesis
    using indep [of w t w'] indep' [of w t w'] empty empty' st fb fb' by blast
qed

theorem store_fallback_only_for_nullish_witness:
  "getTokenPayload (browser sample_JSON_parse) sample_window (Some []) = Inr JNull
   \<and> isTokenExpired (browser sample_JSON_parse) sample_window 1600000000000 (Some []) None = Inr True
   \<and> getToken sample_window = Inr (Some sample_token)
   \<and> getTokenPayload (browser sample_JSON_parse) sample_window None
       = getTokenPayload (browser sample_JSON_parse) blocked_window (Some sample_token)
   \<and> isTokenExpired (browser sample_JSON_parse) sample_window 1600000000000 None None = Inr False"
proof -
  have h1: "getToken sample_window = Inr (Some sample_token)" by code_simp
  have h2: "isTokenExpired (browser sample_JSON_parse) blocked_window 1600000000000 (Some sample_token) None = Inr False"
    by (rule sample_token_unexpired)
  show ?thesis
    using h1 h2
      store_fallback_only_for_nullish [of "browser sample_JSON_parse" sample_window
        1600000000000 None sample_token blocked_window]
    by simp
qed

section \<open>Expiry evaluator\<close>

lemma to_double_late:
  "to_double (1700000001 - (1 - 1 / 2 ^ 30)) = Finite 1700000000"
  using to_double_nearest [of 30 "1700000001 - (1 - 1 / 2 ^ 30)" 7130316800000000 "1 / 256"]
  by simp

lemma skew_is_double: "to_double (1 - 1 / 2 ^ 30) = Finite (1 - 1 / 2 ^ 30)"
  using to_double_nearest [of "- 1" "1 - 1 / 2 ^ 30" "2 ^ 53 - 2 ^ 23" 0]
  by simp

lemma exp_token_claims:
  "getTokenPayload (browser exp_JSON_parse) None (Some epoch_token)
     = Inr (JObj [(js ''exp'', JNum (Finite 0))])"
  "getTokenPayload (browser exp_JSON_parse) None (Some late_token)
     = Inr (JObj [(js ''exp'', JNum (Finite 1700000001))])"
  "getTokenPayload (browser exp_JSON_parse) None (Some old_token)
     = Inr (JObj [(js ''exp'', JNum (Finite 1))])"
  by code_simp+

text \<open>
  Claim C4, as stated, fails on three kinds of input. A credential with \<^verbatim>\<open>exp\<close> 0 is
  expired by the test \<^verbatim>\<open>!exp\<close> also on a clock set before 1970, where the time in
  seconds, here -100, is less than \<^verbatim>\<open>exp\<close> minus the skew, -30; this credential has
  \<^verbatim>\<open>exp = now + 100\<close> and is expired with skew 30. With \<^verbatim>\<open>exp\<close>
  1700000001 and a skew of \<open>1 - 2 ^ (- 30)\<close>, which is a double, the subtraction rounds
  to 1700000000, so at that second the credential is expired although \<^verbatim>\<open>exp\<close> minus the
  skew is later. And with a skew of NaN the comparison is false, so a credential that
  expired in 1970 is not expired, whatever skew the condition is read with.
\<close>

theorem isTokenExpired_not_as_specified:
  "getTokenPayload (browser exp_JSON_parse) None (Some epoch_token)
     = Inr (JObj [(js ''exp'', JNum (Finite 0))])
   \<and> isTokenExpired (browser exp_JSON_parse) None (- 100000) (Some epoch_token) (Some (Finite 30))
       = Inr True
   \<and> expired_as_specified (JObj [(js ''exp'', JNum (Finite 0))]) (- 100000 div 1000) (Some 30)
       = False
   \<and> getTokenPayload (browser exp_JSON_parse) None (Some late_token)
       = Inr (JObj [(js ''exp'', JNum (Finite 1700000001))])
   \<and> to_double (1 - 1 / 2 ^ 30) = Finite (1 - 1 / 2 ^ 30)
   \<and> isTokenExpired (browser exp_JSON_parse) None 1700000000000 (Some late_token)
         (Some (Finite (1 - 1 / 2 ^ 30))) = Inr True
   \<and> expired_as_specified (JObj [(js ''exp'', JNum (Finite 1700000001))])
         (1700000000000 div 1000) (Some (1 - 1 / 2 ^ 30)) = False
   \<and> getTokenPayload (browser exp_JSON_parse) None (Some old_token)
       = Inr (JObj [(js ''exp'', JNum (Finite 1))])
   \<and> isTokenExpired (browser exp_JSON_parse) None 1700000000000 (Some old_token) (Some NaN)
       = Inr False
   \<and> (\<forall>s. expired_as_specified (JObj [(js ''exp'', JNum (Finite 1))]) (1700000000000 div 1000) s)"
proof -
  have c: "Math_floor (divide_by (to_double (of_int 1700000000000)) 1000) = Finite 1700000000"
    using clock_seconds [of 1700000000000] by simp
  have 1: "isTokenExpired (browser exp_JSON_parse) None (- 100000) (Some epoch_token)
      (Some (Finite 30)) = Inr True"
    by (simp add: isTokenExpired_def exp_token_claims)
  have 2: "expired_as_specified (JObj [(js ''exp'', JNum (Finite 0))]) (- 100000 div 1000) (Some 30)
      = False"
    by (simp add: expired_as_specified_def)
  have 3: "isTokenExpired (browser exp_JSON_parse) None 1700000000000 (Some late_token)
      (Some (Finite (1 - 1 / 2 ^ 30))) = Inr True"
    using c to_double_late by (simp add: isTokenExpired_def exp_token_claims)
  have 4: "expired_as_specified (JObj [(js ''exp'', JNum (Finite 1700000001))])
      (1700000000000 div 1000) (Some (1 - 1 / 2 ^ 30)) = False"
    by (simp add: expired_as_specified_def)
  have 5: "isTokenExpired (browser exp_JSON_parse) None 1700000000000 (Some old_token) (Some NaN)
      = Inr False"
    by (simp add: isTokenExpired_def exp_token_claims subtract_NaN greater_equal_NaN)
  have 6: "expired_as_specified (JObj [(js ''exp'', JNum (Finite 1))]) (1700000000000 div 1000) s"
    for s
    by (simp add: expired_as_specified_def split: option.split)
  show ?thesis
    using exp_token_claims skew_is_double 1 2 3 4 5 6 by blast
qed

text \<open>
  Claim C4, amended. \<^verbatim>\<open>isTokenExpired\<close> returns true when the decoded claims are
  \<^verbatim>\<open>null\<close>, when \<^verbatim>\<open>exp\<close> is missing or not a number, and when \<^verbatim>\<open>exp\<close> is 0 or NaN (the
  test \<^verbatim>\<open>!exp\<close>). For every other numeric \<^verbatim>\<open>exp\<close> it returns the value of
  \<^verbatim>\<open>now >= exp - Math.max(0, s)\<close> in double arithmetic, where \<^verbatim>\<open>now\<close> is
  \<^verbatim>\<open>Math.floor(Date.now() / 1000)\<close> and an omitted \<^verbatim>\<open>s\<close> is 30: the difference is rounded
  to the nearest double, and for a skew of NaN the result is false. When \<^verbatim>\<open>exp\<close> is a
  whole number other than 0 and the skew a whole number (or omitted), both below
  \<open>2 ^ 52\<close> in magnitude, and \<^verbatim>\<open>Date.now()\<close> is a time value (at most 8.64e15 in
  magnitude), nothing is rounded: the credential is expired exactly when the time in
  whole seconds is at least \<^verbatim>\<open>exp\<close> minus the skew, a negative skew counting as 0, which
  is the condition of the specification. In particular, on a clock that is not set
  before 1970 and with skew 30, given or by default, a credential with
  \<^verbatim>\<open>exp = now + 100\<close> is not expired and one with \<^verbatim>\<open>exp = now + 10\<close> is.
\<close>

theorem isTokenExpired_in_doubles:
  "\<exists>payload. getTokenPayload P w token = Inr payload
     \<and> isTokenExpired P w date_now token skewSeconds =
         Inr (payload = JNull
              \<or> (\<forall>x. prop_exp payload \<noteq> Some (JNum x))
              \<or> prop_exp payload = Some (JNum (Finite 0))
              \<or> prop_exp payload = Some (JNum NaN)
              \<or> (\<exists>x. prop_exp payload = Some (JNum x)
                    \<and> greater_equal (Math_floor (divide_by (to_double (of_int date_now)) 1000))
                         (subtract x (Math_max (Finite 0)
                            (case skewSeconds of None \<Rightarrow> Finite 30 | Some s \<Rightarrow> s)))))
     \<and> (\<forall>x. prop_exp payload = Some (JNum x) \<and> x \<noteq> Finite 0 \<and> x \<noteq> NaN
          \<longrightarrow> isTokenExpired P w date_now token (Some NaN) = Inr False)
     \<and> (\<forall>a k. prop_exp payload = Some (JNum (Finite (of_int a))) \<and> a \<noteq> 0
            \<and> \<bar>a\<bar> < 2 ^ 52 \<and> \<bar>k\<bar> < 2 ^ 52 \<and> \<bar>date_now\<bar> \<le> 8640000000000000
          \<longrightarrow> isTokenExpired P w date_now token (Some (Finite (of_int k)))
                = Inr (a - max 0 k \<le> date_now div 1000)
            \<and> isTokenExpired P w date_now token None = Inr (a - 30 \<le> date_now div 1000)
            \<and> expired_as_specified payload (date_now div 1000) (Some (of_int k))
                = (a - max 0 k \<le> date_now div 1000)
            \<and> expired_as_specified payload (date_now div 1000) None
                = (a - 30 \<le> date_now div 1000))
     \<and> (0 \<le> date_now \<and> date_now \<le> 8640000000000000
            \<and> prop_exp payload = Some (JNum (Finite (of_int (date_now div 1000 + 100))))
          \<longrightarrow> isTokenExpired P w date_now token (Some (Finite 30)) = Inr False
            \<and> isTokenExpired P w date_now token None = Inr False)
     \<and> (0 \<le> date_now \<and> date_now \<le> 8640000000000000
            \<and> prop_exp payload = Some (JNum (Finite (of_int (date_now div 1000 + 10))))
          \<longrightarrow> isTokenExpired P w date_now token (Some (Finite 30)) = Inr True
            \<and> isTokenExpired P w date_now token None = Inr True)"
proof -
  obtain payload where p: "getTokenPayload P w token = Inr payload"
    using getTokenPayload_total by blast
  have main: "isTokenExpired P w date_now token skewSeconds =
         Inr (payload = JNull
              \<or> (\<forall>x. prop_exp payload \<noteq> Some (JNum x))
              \<or> prop_exp payload = Some (JNum (Finite 0))
              \<or> prop_exp payload = Some (JNum NaN)
              \<or> (\<exists>x. prop_exp payload = Some (JNum x)
                    \<and> greater_equal (Math_floor (divide_by (to_double (of_int date_now)) 1000))
                         (subtract x (Math_max (Finite 0)
                            (case skewSeconds of None \<Rightarrow> Finite 30 | Some s \<Rightarrow> s)))))"
  proof (cases "prop_exp payload")
    case None
    then show ?thesis using p by (simp add: isTokenExpired_def)
  next
    case (Some v)
    then have nn: "payload \<noteq> JNull" by auto
    show ?thesis
    proof (cases v)
      case (JNum x)
      show ?thesis
      proof (cases "x = Finite 0 \<or> x = NaN")
        case True
        then show ?thesis using p Some JNum by (auto simp: isTokenExpired_def)
      next
        case False
        then show ?thesis using p Some JNum nn by (simp add: isTokenExpired_def Let_def)
      qed
    qed (use p Some nn in \<open>simp_all add: isTokenExpired_def\<close>)
  qed
  have nan: "isTokenExpired P w date_now token (Some NaN) = Inr False"
    if "prop_exp payload = Some (JNum x) \<and> x \<noteq> Finite 0 \<and> x \<noteq> NaN" for x
    using that p by (simp add: isTokenExpired_def subtract_NaN greater_equal_NaN)
  have ints: "isTokenExpired P w date_now token (Some (Finite (of_int k)))
                = Inr (a - max 0 k \<le> date_now div 1000)
            \<and> isTokenExpired P w date_now token None = Inr (a - 30 \<le> date_now div 1000)
            \<and> expired_as_specified payload (date_now div 1000) (Some (of_int k))
                = (a - max 0 k \<le> date_now div 1000)
            \<and> expired_as_specified payload (date_now div 1000) None
                = (a - 30 \<le> date_now div 1000)"
    if h: "prop_exp payload = Some (JNum (Finite (of_int a))) \<and> a \<noteq> 0
            \<and> \<bar>a\<bar> < 2 ^ 52 \<and> \<bar>k\<bar> < 2 ^ 52 \<and> \<bar>date_now\<bar> \<le> 8640000000000000" for a k
  proof -
    have 1: "isTokenExpired P w date_now token (Some (Finite (of_int k)))
                = Inr (a - max 0 k \<le> date_now div 1000)"
      using isTokenExpired_on_integers [OF p, of a k date_now] h by blast
    have 2: "isTokenExpired P w date_now token None = Inr (a - 30 \<le> date_now div 1000)"
      using isTokenExpired_on_integers [OF p, of a 30 date_now] h
      by (simp add: isTokenExpired_default)
    have "(of_int a :: real) - max 0 (of_int k) = of_int (a - max 0 k)"
      by (simp add: max_def)
    then have 3: "expired_as_specified payload (date_now div 1000) (Some (of_int k))
                = (a - max 0 k \<le> date_now div 1000)"
      using h by (simp only: expired_as_specified_def option.case json.case number.case of_int_le_iff)
    have "(of_int a :: real) - max 0 30 = of_int (a - 30)" by simp
    then have 4: "expired_as_specified payload (date_now div 1000) None
                = (a - 30 \<le> date_now div 1000)"
      using h by (simp only: expired_as_specified_def option.case json.case number.case of_int_le_iff)
    show ?thesis using 1 2 3 4 by blast
  qed
  have later: "isTokenExpired P w date_now token (Some (Finite 30)) = Inr False
            \<and> isTokenExpired P w date_now token None = Inr False"
    if h: "0 \<le> date_now \<and> date_now \<le> 8640000000000000
            \<and> prop_exp payload = Some (JNum (Finite (of_int (date_now div 1000 + 100))))"
  proof -
    have "0 \<le> date_now div 1000" using h by (simp add: pos_imp_zdiv_nonneg_iff)
    moreover have "date_now div 1000 \<le> 8640000000000"
      using h zdiv_mono1 [of date_now 8640000000000000 1000] by simp
    ultimately have "date_now div 1000 + 100 \<noteq> 0" "\<bar>date_now div 1000 + 100\<bar> < 2 ^ 52"
      "\<bar>date_now\<bar> \<le> 8640000000000000"
      using h by simp_all
    then show ?thesis
      using isTokenExpired_on_integers [OF p, of "date_now div 1000 + 100" 30 date_now] h
      by (simp add: isTokenExpired_default)
  qed
  have sooner: "isTokenExpired P w date_now token (Some (Finite 30)) = Inr True
            \<and> isTokenExpired P w date_now token None = Inr True"
    if h: "0 \<le> date_now \<and> date_now \<le> 8640000000000000
            \<and> prop_exp payload = Some (JNum (Finite (of_int (date_now div 1000 + 10))))"
  proof -
    have "0 \<le> date_now div 1000" using h by (simp add: pos_imp_zdiv_nonneg_iff)
    moreover have "date_now div 1000 \<le> 8640000000000"
      using h zdiv_mono1 [of date_now 8640000000000000 1000] by simp
    ultimately have "date_now div 1000 + 10 \<noteq> 0" "\<bar>date_now div 1000 + 10\<bar> < 2 ^ 52"
      "\<bar>date_now\<bar> \<le> 8640000000000000"
      using h by simp_all
    then show ?thesis
      using isTokenExpired_on_integers [OF p, of "date_now div 1000 + 10" 30 date_now] h
      by (simp add: isTokenExpired_default)
  qed
  show ?thesis
    using p main nan ints later sooner by blast
qed

theorem isTokenExpired_in_doubles_witness:
  "isTokenExpired (browser sample_JSON_parse) None 1699999900999 (Some sample_token) (Some (Finite 30))
     = Inr False
   \<and> isTokenExpired (browser sample_JSON_parse) None 1699999900999 (Some sample_token) None = Inr False
   \<and> isTokenExpired (browser sample_JSON_parse) None 1699999990000 (Some sample_token) (Some (Finite 30))
       = Inr True
   \<and> isTokenExpired (browser sample_JSON_parse) None 1699999990000 (Some sample_token) None = Inr True
   \<and> isTokenExpired (browser sample_JSON_parse) None 1699999990000 (Some sample_token)
         (Some (Finite (- 5))) = Inr False
   \<and> isTokenExpired (browser sample_JSON_parse) None 1699999990000 (Some sample_token) (Some NaN)
       = Inr False
   \<and> expired_as_specified (JObj [(js ''exp'', JNum (Finite 1700000000))]) 1699999990 (Some (- 5))
       = False"
proof -
  let ?claims = "JObj [(js ''exp'', JNum (Finite 1700000000))]"
  have p: "getTokenPayload (browser sample_JSON_parse) None (Some sample_token) = Inr ?claims"
    by code_simp
  have e: "prop_exp ?claims = Some (JNum (Finite (of_int 1700000000)))"
    "prop_exp ?claims = Some (JNum (Finite (of_int (1699999900999 div 1000 + 100))))"
    "prop_exp ?claims = Some (JNum (Finite (of_int (1699999990000 div 1000 + 10))))"
    by simp_all
  have d: "(1699999990000::int) div 1000 = 1699999990" by simp
  obtain c1 where c1: "getTokenPayload (browser sample_JSON_parse) None (Some sample_token) = Inr c1"
    and later: "0 \<le> (1699999900999::int) \<and> (1699999900999::int) \<le> 8640000000000000
            \<and> prop_exp c1 = Some (JNum (Finite (of_int (1699999900999 div 1000 + 100))))
          \<longrightarrow> isTokenExpired (browser sample_JSON_parse) None 1699999900999 (Some sample_token)
                (Some (Finite 30)) = Inr False
            \<and> isTokenExpired (browser sample_JSON_parse) None 1699999900999 (Some sample_token) None
                = Inr False"
    using isTokenExpired_in_doubles [of "browser sample_JSON_parse" None "Some sample_token"
        1699999900999 None]
    by blast
  obtain c2 where c2: "getTokenPayload (browser sample_JSON_parse) None (Some sample_token) = Inr c2"
    and nan: "\<forall>x. prop_exp c2 = Some (JNum x) \<and> x \<noteq> Finite 0 \<and> x \<noteq> NaN
          \<longrightarrow> isTokenExpired (browser sample_JSON_parse) None 1699999990000 (Some sample_token)
                (Some NaN) = Inr False"
    and ints: "\<forall>a k. prop_exp c2 = Some (JNum (Finite (of_int a))) \<and> a \<noteq> 0
            \<and> \<bar>a\<bar> < 2 ^ 52 \<and> \<bar>k\<bar> < 2 ^ 52 \<and> \<bar>1699999990000 :: int\<bar> \<le> 8640000000000000
          \<longrightarrow> isTokenExpired (browser sample_JSON_parse) None 1699999990000 (Some sample_token)
                (Some (Finite (of_int k))) = Inr (a - max 0 k \<le> 1699999990000 div 1000)
            \<and> isTokenExpired (browser sample_JSON_parse) None 1699999990000 (Some sample_token) None
                = Inr (a - 30 \<le> 1699999990000 div 1000)
            \<and> expired_as_specified c2 (1699999990000 div 1000) (Some (of_int k))
                = (a - max 0 k \<le> 1699999990000 div 1000)
            \<and> expired_as_specified c2 (1699999990000 div 1000) None
                = (a - 30 \<le> 1699999990000 div 1000)"
    and sooner: "0 \<le> (1699999990000::int) \<and> (1699999990000::int) \<le> 8640000000000000
            \<and> prop_exp c2 = Some (JNum (Finite (of_int (1699999990000 div 1000 + 10))))
          \<longrightarrow> isTokenExpired (browser sample_JSON_parse) None 1699999990000 (Some sample_token)
                (Some (Finite 30)) = Inr True
            \<and> isTokenExpired (browser sample_JSON_parse) None 1699999990000 (Some sample_token) None
                = Inr True"
    using isTokenExpired_in_doubles [of "browser sample_JSON_parse" None "Some sample_token"
        1699999990000 None]
    by blast
  have c: "c1 = ?claims" "c2 = ?claims" using p c1 c2 by simp_all
  have 1: "isTokenExpired (browser sample_JSON_parse) None 1699999900999 (Some sample_token)
                (Some (Finite 30)) = Inr False
            \<and> isTokenExpired (browser sample_JSON_parse) None 1699999900999 (Some sample_token) None
                = Inr False"
    using later e(2) unfolding c by simp
  have 2: "isTokenExpired (browser sample_JSON_parse) None 1699999990000 (Some sample_token)
                (Some (Finite 30)) = Inr True
            \<and> isTokenExpired (browser sample_JSON_parse) None 1699999990000 (Some sample_token) None
                = Inr True"
    using sooner e(3) unfolding c by simp
  have 3: "isTokenExpired (browser sample_JSON_parse) None 1699999990000 (Some sample_token)
         (Some (Finite (- 5))) = Inr False
     \<and> expired_as_specified ?claims 1699999990 (Some (- 5)) = False"
    using ints [rule_format, of 1700000000 "- 5"] e(1) unfolding c d by simp
  have 4: "isTokenExpired (browser sample_JSON_parse) None 1699999990000 (Some sample_token) (Some NaN)
       = Inr False"
    using nan [rule_format, of "Finite 1700000000"] unfolding c by simp
  show ?thesis using 1 2 3 4 by blast
qed

section \<open>Session guard\<close>

lemma clear_and_login_working:
  assumes "win pg = Some ls" "\<not> access_denied ls"
  shows "clear_and_login pg =
           Inr (pg\<lparr>win := Some (ls\<lparr>slots := AList.delete TOKEN_KEY (slots ls)\<rparr>),
                   replaced := replaced pg @ [js ''/login'']\<rparr>)"
  using assms by (simp add: clear_and_login_def clearToken_def removeItem_def)

lemma getToken_Some_working:
  assumes "getToken w = Inr (Some t)"
  shows "\<exists>ls. w = Some ls \<and> \<not> access_denied ls \<and> map_of (slots ls) TOKEN_KEY = Some t"
  using assms by (auto simp: getToken_def getItem_def split: option.splits if_splits sum.splits)

lemma getToken_cleared:
  "\<not> access_denied ls \<Longrightarrow> getToken (Some (ls\<lparr>slots := AList.delete TOKEN_KEY (slots ls)\<rparr>)) = Inr None"
  by (simp add: getToken_def getItem_def delete_conv')

lemma guard_redirects_without_credential:
  assumes "win pg = Some ls" "\<not> access_denied ls" "getToken (win pg) = Inr t"
    and "no_token t \<or> isTokenExpired P (win pg) date_now t None = Inr True"
  shows "effect P base date_now False pg =
           Inr (pg\<lparr>win := Some (ls\<lparr>slots := AList.delete TOKEN_KEY (slots ls)\<rparr>),
                   replaced := replaced pg @ [js ''/login'']\<rparr>)"
  using assms clear_and_login_working [OF assms(1,2)]
  by (auto simp: effect_def)

lemma guard_sends_request:
  assumes "getToken w = Inr (Some token)" "token \<noteq> []"
    and "isTokenExpired P w date_now (Some token) None = Inr False" "b \<noteq> []"
  shows "effect P (Some b) date_now False (mount False w)
           = Inr \<lparr>win = w, is_checking = True, me = JNull, replaced = [],
                  fetches = [me_request b token], in_flight = True\<rparr>"
  using assms by (simp add: effect_def mount_def no_token_def)

lemma guard_ends_checking:
  assumes "getToken (win pg) = Inr (Some token)" "token \<noteq> []"
    and "isTokenExpired P (win pg) date_now (Some token) None = Inr False"
    and "base = None \<or> base = Some []"
  shows "effect P base date_now False pg = Inr (pg\<lparr>is_checking := False\<rparr>)"
  using assms by (auto simp: effect_def no_token_def)

lemma sample_guard_sends_request:
  "effect (browser sample_JSON_parse) (Some sample_base) 1600000000000 False
       (mount False sample_window) = Inr verifying_page"
proof -
  have "getToken sample_window = Inr (Some sample_token)" "sample_token \<noteq> []" "sample_base \<noteq> []"
    by code_simp+
  then show ?thesis
    using guard_sends_request [of sample_window sample_token "browser sample_JSON_parse"
        1600000000000 sample_base] sample_token_unexpired [of sample_window]
    by (simp add: verifying_page_def)
qed

lemma sample_guard_ends_checking:
  "effect (browser sample_JSON_parse) None 1600000000000 False (mount False sample_window)
     = Inr ((mount False sample_window)\<lparr>is_checking := False\<rparr>)"
proof -
  have "getToken (win (mount False sample_window)) = Inr (Some sample_token)" "sample_token \<noteq> []"
    by code_simp+
  then show ?thesis
    using guard_ends_checking [of "mount False sample_window" sample_token
        "browser sample_JSON_parse" 1600000000000 None]
      sample_token_unexpired [of "win (mount False sample_window)"]
    by simp
qed

text \<open>
  Claim C6. On a protected page in a browsing context whose storage throws on access,
  \<^verbatim>\<open>getToken\<close> reports no credential, and the guard's \<^verbatim>\<open>clearToken()\<close> then throws out
  of the effect before \<^verbatim>\<open>router.replace("/login")\<close> is reached.
\<close>

theorem guard_throws_on_blocked_storage:
  "getToken blocked_window = Inr None
   \<and> effect P base date_now False (mount False blocked_window) = Inl SecurityError"
  by (simp add: effect_def mount_def no_token_def clear_and_login_def blocked_window_def
      getToken_def getItem_def clearToken_def removeItem_def)

lemma cleanup_in_flight:
  "in_flight pg \<Longrightarrow> cleanup pg = clear_and_login (pg\<lparr>in_flight := False\<rparr>)"
  by (simp add: cleanup_def settle_def first_then_def)

text \<open>
  Claim C1. A protected page with a stored, unexpired credential issues its
  verification request; tearing the page down before the response arrives runs the
  cleanup, the aborted \<^verbatim>\<open>fetch\<close> rejects, and the final \<^verbatim>\<open>catch\<close> of the chain clears the
  token store and calls \<^verbatim>\<open>router.replace("/login")\<close>.
\<close>

theorem cancellation_clears_session:
  "effect (browser sample_JSON_parse) (Some sample_base) 1600000000000 False
       (mount False sample_window) = Inr verifying_page
   \<and> cleanup verifying_page = Inr logged_out_page
   \<and> getToken (win logged_out_page) = Inr None
   \<and> replaced logged_out_page = [js ''/login'']"
proof -
  have "cleanup verifying_page = Inr logged_out_page
   \<and> getToken (win logged_out_page) = Inr None
   \<and> replaced logged_out_page = [js ''/login'']"
    by code_simp
  then show ?thesis using sample_guard_sends_request by simp
qed


text \<open>
  Claim C5, as stated, fails in two places: without a configured base URL a page with a
  valid credential issues no request at all, and a 2xx response whose body is not
  JSON ends in the failure path.
\<close>

theorem guard_without_base_url_sends_nothing:
  "getToken sample_window = Inr (Some sample_token)
   \<and> isTokenExpired (browser sample_JSON_parse) sample_window 1600000000000 (Some sample_token) None
       = Inr False
   \<and> map_sum id fetches
         (effect (browser sample_JSON_parse) None 1600000000000 False (mount False sample_window))
       = Inr []
   \<and> ok \<lparr>status = 200, json_body = Inl SyntaxError\<rparr>
   \<and> settle (Fulfilled \<lparr>status = 200, json_body = Inl SyntaxError\<rparr>) verifying_page
       = Inr logged_out_page"
proof -
  have "getToken sample_window = Inr (Some sample_token)
   \<and> ok \<lparr>status = 200, json_body = Inl SyntaxError\<rparr>
   \<and> settle (Fulfilled \<lparr>status = 200, json_body = Inl SyntaxError\<rparr>) verifying_page
       = Inr logged_out_page"
    by code_simp
  moreover have "map_sum id fetches
         (effect (browser sample_JSON_parse) None 1600000000000 False (mount False sample_window))
       = Inr []"
    using sample_guard_ends_checking by (simp add: mount_def)
  ultimately show ?thesis using sample_token_unexpired [of sample_window] by simp
qed

text \<open>
  Claim C5, amended. A protected page with a stored credential that is not locally
  expired and a configured (non-empty) base URL issues exactly one request, to
  \<^verbatim>\<open>/api/auth/me\<close> under that base, with the credential as bearer authorization header.
  If the response has status 401 or any other non-success status, the store is cleared
  and the page redirects to \<^verbatim>\<open>/login\<close>; the same happens when the body of a success does
  not parse. If the response is a success whose body parses, the page stops checking
  and holds the parsed body as its profile, with the store and the router untouched.
  No second request is issued in either case.
\<close>

theorem guard_verifies_once:
  assumes "getToken w = Inr (Some token)" and "token \<noteq> []"
    and "isTokenExpired P w date_now (Some token) None = Inr False"
    and "b \<noteq> []"
  shows "\<exists>pg1. effect P (Some b) date_now False (mount False w) = Inr pg1
      \<and> fetches pg1 = [me_request b token]
      \<and> url (me_request b token) = b @ js ''/api/auth/me''
      \<and> map_of (headers (me_request b token)) (js ''Authorization'') = Some (js ''Bearer '' @ token)
      \<and> in_flight pg1 \<and> is_checking pg1 \<and> replaced pg1 = [] \<and> win pg1 = w
      \<and> (\<forall>res. status res = 401 \<or> \<not> ok res \<or> (\<exists>e. json_body res = Inl e) \<longrightarrow>
            (\<exists>pg2. settle (Fulfilled res) pg1 = Inr pg2
               \<and> getToken (win pg2) = Inr None
               \<and> replaced pg2 = [js ''/login'']
               \<and> fetches pg2 = [me_request b token]
               \<and> me pg2 = JNull))
      \<and> (\<forall>res data. ok res \<and> json_body res = Inr data \<longrightarrow>
            settle (Fulfilled res) pg1
              = Inr \<lparr>win = w, is_checking = False, me = data, replaced = [],
                     fetches = [me_request b token], in_flight = False\<rparr>)"
proof -
  obtain ls where ls: "w = Some ls" "\<not> access_denied ls"
    using getToken_Some_working [OF assms(1)] by blast
  define pg1 where "pg1 = \<lparr>win = w, is_checking = True, me = JNull, replaced = [],
      fetches = [me_request b token], in_flight = True\<rparr>"
  have eff: "effect P (Some b) date_now False (mount False w) = Inr pg1"
    using assms by (simp add: effect_def mount_def no_token_def pg1_def)
  have fail: "\<exists>pg2. settle (Fulfilled res) pg1 = Inr pg2
               \<and> getToken (win pg2) = Inr None
               \<and> replaced pg2 = [js ''/login'']
               \<and> fetches pg2 = [me_request b token]
               \<and> me pg2 = JNull"
    if "status res = 401 \<or> \<not> ok res \<or> (\<exists>e. json_body res = Inl e)" for res
  proof -
    have "\<exists>e. first_then (Fulfilled res) = Inl e"
      using that by (auto simp: first_then_def)
    then have "settle (Fulfilled res) pg1 = clear_and_login (pg1\<lparr>in_flight := False\<rparr>)"
      by (auto simp: settle_def pg1_def)
    also have "\<dots> = Inr (pg1\<lparr>in_flight := False,
          win := Some (ls\<lparr>slots := AList.delete TOKEN_KEY (slots ls)\<rparr>),
          replaced := [js ''/login'']\<rparr>)"
      using clear_and_login_working [of "pg1\<lparr>in_flight := False\<rparr>" ls] ls
      by (simp add: pg1_def)
    finally show ?thesis
      using getToken_cleared [OF ls(2)] by (simp add: pg1_def)
  qed
  have succ: "settle (Fulfilled res) pg1
              = Inr \<lparr>win = w, is_checking = False, me = data, replaced = [],
                     fetches = [me_request b token], in_flight = False\<rparr>"
    if "ok res \<and> json_body res = Inr data" for res data
  proof -
    have "status res \<noteq> 401" using that by (auto simp: ok_def)
    then show ?thesis using that by (simp add: settle_def first_then_def pg1_def)
  qed
  have req: "url (me_request b token) = b @ js ''/api/auth/me''"
    "map_of (headers (me_request b token)) (js ''Authorization'') = Some (js ''Bearer '' @ token)"
    by (simp_all add: me_request_def)
  show ?thesis
    using eff fail succ req by (intro exI [of _ pg1]) (simp add: pg1_def)
qed


theorem guard_verifies_once_witness:
  "getToken sample_window = Inr (Some sample_token) \<and> sample_token \<noteq> []
   \<and> isTokenExpired (browser sample_JSON_parse) sample_window 1600000000000 (Some sample_token) None
       = Inr False
   \<and> sample_base \<noteq> []
   \<and> effect (browser sample_JSON_parse) (Some sample_base) 1600000000000 False
         (mount False sample_window) = Inr verifying_page
   \<and> (\<exists>pg2. settle (Fulfilled \<lparr>status = 401, json_body = Inr JNull\<rparr>) verifying_page = Inr pg2
         \<and> getToken (win pg2) = Inr None \<and> replaced pg2 = [js ''/login''])
   \<and> (\<exists>pg2. settle (Fulfilled \<lparr>status = 503, json_body = Inr JNull\<rparr>) verifying_page = Inr pg2
         \<and> getToken (win pg2) = Inr None \<and> replaced pg2 = [js ''/login''])
   \<and> settle (Fulfilled \<lparr>status = 200,
                          json_body = Inr (JObj [(js ''username'', JStr (js ''ana''))])\<rparr>)
         verifying_page
       = Inr \<lparr>win = sample_window, is_checking = False,
              me = JObj [(js ''username'', JStr (js ''ana''))], replaced = [],
              fetches = [me_request sample_base sample_token], in_flight = False\<rparr>"
proof -
  have h1: "getToken sample_window = Inr (Some sample_token)" by code_simp
  have h2: "sample_token \<noteq> []" by code_simp
  have h3: "isTokenExpired (browser sample_JSON_parse) sample_window 1600000000000
              (Some sample_token) None = Inr False"
    by (rule sample_token_unexpired)
  have h4: "sample_base \<noteq> []" by code_simp
  have e: "effect (browser sample_JSON_parse) (Some sample_base) 1600000000000 False
         (mount False sample_window) = Inr verifying_page"
    by (rule sample_guard_sends_request)
  have o: "\<not> ok \<lparr>status = 401, json_body = Inr JNull\<rparr>"
    "\<not> ok \<lparr>status = 503, json_body = Inr JNull\<rparr>"
    "ok \<lparr>status = 200, json_body = Inr (JObj [(js ''username'', JStr (js ''ana''))])\<rparr>"
    by (simp_all add: ok_def)
  obtain pg1 where "effect (browser sample_JSON_parse) (Some sample_base) 1600000000000 False
         (mount False sample_window) = Inr pg1"
    and f: "\<forall>res. status res = 401 \<or> \<not> ok res \<or> (\<exists>e. json_body res = Inl e) \<longrightarrow>
            (\<exists>pg2. settle (Fulfilled res) pg1 = Inr pg2
               \<and> getToken (win pg2) = Inr None
               \<and> replaced pg2 = [js ''/login'']
               \<and> fetches pg2 = [me_request sample_base sample_token]
               \<and> me pg2 = JNull)"
    and s: "\<forall>res data. ok res \<and> json_body res = Inr data \<longrightarrow>
            settle (Fulfilled res) pg1
              = Inr \<lparr>win = sample_window, is_checking = False, me = data, replaced = [],
                     fetches = [me_request sample_base sample_token], in_flight = False\<rparr>"
    using guard_verifies_once [OF h1 h2 h3 h4] by blast
  then have pg1: "pg1 = verifying_page" using e by simp
  have f1: "\<exists>pg2. settle (Fulfilled \<lparr>status = 401, json_body = Inr JNull\<rparr>) verifying_page = Inr pg2
         \<and> getToken (win pg2) = Inr None \<and> replaced pg2 = [js ''/login'']"
    using f [rule_format, of "\<lparr>status = 401, json_body = Inr JNull\<rparr>"] o(1) unfolding pg1 by blast
  have f2: "\<exists>pg2. settle (Fulfilled \<lparr>status = 503, json_body = Inr JNull\<rparr>) verifying_page = Inr pg2
         \<and> getToken (win pg2) = Inr None \<and> replaced pg2 = [js ''/login'']"
    using f [rule_format, of "\<lparr>status = 503, json_body = Inr JNull\<rparr>"] o(2) unfolding pg1 by blast
  have s1: "settle (Fulfilled \<lparr>status = 200,
                          json_body = Inr (JObj [(js ''username'', JStr (js ''ana''))])\<rparr>)
         verifying_page
       = Inr \<lparr>win = sample_window, is_checking = False,
              me = JObj [(js ''username'', JStr (js ''ana''))], replaced = [],
              fetches = [me_request sample_base sample_token], in_flight = False\<rparr>"
    using s [rule_format, of "\<lparr>status = 200,
                          json_body = Inr (JObj [(js ''username'', JStr (js ''ana''))])\<rparr>"
        "JObj [(js ''username'', JStr (js ''ana''))]"] o(3) unfolding pg1 by simp
  show ?thesis
    using h1 h2 h3 h4 e f1 f2 s1 by blast
qed

section \<open>Missing configuration\<close>

text \<open>
  Claim C2, as stated, fails for the session guard: without the base URL the effect
  returns normally, having only ended the checking state.
\<close>

theorem guard_silent_without_base_url:
  "effect (browser sample_JSON_parse) None 1600000000000 False (mount False sample_window)
     = Inr ((mount False sample_window)\<lparr>is_checking := False\<rparr>)"
  by (rule sample_guard_ends_checking)

text \<open>
  Claim C2, amended. When the base URL is absent (or empty), each of the ten fetch
  wrappers rejects with the configuration error and issues no request. The session
  guard does not throw: for a stored credential that is not locally expired it issues
  no request, leaves the store and the router alone and only ends the checking state.
\<close>

theorem missing_base_url:
  assumes "NEXT_PUBLIC_PY_API_URL A = None \<or> NEXT_PUBLIC_PY_API_URL A = Some []"
  shows "getBaseUrl A = Inl (Error not_configured)
    \<and> getDeviceDetail A deviceId = (Inl (Error not_configured), [])
    \<and> getDeviceComponents A deviceId = (Inl (Error not_configured), [])
    \<and> getDeviceNotes A deviceId = (Inl (Error not_configured), [])
    \<and> createDeviceNote A deviceId payload = (Inl (Error not_configured), [])
    \<and> updateDeviceNote A deviceId noteId payload = (Inl (Error not_configured), [])
    \<and> deleteDeviceNote A deviceId noteId = (Inl (Error not_configured), [])
    \<and> getDeviceMaintenance A deviceId = (Inl (Error not_configured), [])
    \<and> createMaintenance A payload = (Inl (Error not_configured), [])
    \<and> updateMaintenance A maintenanceId payload = (Inl (Error not_configured), [])
    \<and> deleteMaintenance A maintenanceId = (Inl (Error not_configured), [])
    \<and> (getToken (win pg) = Inr (Some token) \<and> token \<noteq> []
         \<and> isTokenExpired P (win pg) date_now (Some token) None = Inr False
         \<longrightarrow> effect P (NEXT_PUBLIC_PY_API_URL A) date_now False pg
               = Inr (pg\<lparr>is_checking := False\<rparr>))"
proof -
  have b: "getBaseUrl A = Inl (Error not_configured)"
    using assms by (auto simp: getBaseUrl_def)
  have u: "device_url A d s = Inl (Error not_configured)"
    "maintenance_url A s = Inl (Error not_configured)" for d s
    by (simp_all add: device_url_def maintenance_url_def b)
  have g: "effect P (NEXT_PUBLIC_PY_API_URL A) date_now False pg = Inr (pg\<lparr>is_checking := False\<rparr>)"
    if "getToken (win pg) = Inr (Some token) \<and> token \<noteq> []
         \<and> isTokenExpired P (win pg) date_now (Some token) None = Inr False"
    using that assms by (auto simp: effect_def no_token_def)
  show ?thesis
    using g
    by (simp add: b u getDeviceDetail_def getDeviceComponents_def getDeviceNotes_def
        createDeviceNote_def updateDeviceNote_def deleteDeviceNote_def getDeviceMaintenance_def
        createMaintenance_def updateMaintenance_def deleteMaintenance_def)
qed

theorem missing_base_url_witness:
  "NEXT_PUBLIC_PY_API_URL sample_api = None
   \<and> getDeviceDetail sample_api (js ''42'') = (Inl (Error not_configured), [])
   \<and> deleteMaintenance sample_api 7 = (Inl (Error not_configured), [])
   \<and> getToken (win (mount False sample_window)) = Inr (Some sample_token) \<and> sample_token \<noteq> []
   \<and> isTokenExpired (browser sample_JSON_parse) (win (mount False sample_window)) 1600000000000
         (Some sample_token) None = Inr False
   \<and> effect (browser sample_JSON_parse) None 1600000000000 False (mount False sample_window)
       = Inr ((mount False sample_window)\<lparr>is_checking := False\<rparr>)"
proof -
  have h: "NEXT_PUBLIC_PY_API_URL sample_api = None" by (simp add: sample_api_def)
  have h1: "getToken (win (mount False sample_window)) = Inr (Some sample_token)" by code_simp
  have h2: "sample_token \<noteq> []" by code_simp
  have h3: "isTokenExpired (browser sample_JSON_parse) (win (mount False sample_window))
              1600000000000 (Some sample_token) None = Inr False"
    by (rule sample_token_unexpired)
  show ?thesis
    using missing_base_url [of sample_api "js ''42''" _ _ 7 "mount False sample_window"
        sample_token "browser sample_JSON_parse" 1600000000000] h h1 h2 h3
    by simp
qed

section \<open>Round trip through the credential decoder\<close>

lemma unpack3:
  fixes a b c k :: nat
  assumes "b < k" "c < k"
  shows "((a * k + b) * k + c) div (k * k) = a"
    and "((a * k + b) * k + c) div k mod k = b"
    and "((a * k + b) * k + c) mod k = c"
  using assms by (simp_all add: div_mult2_eq)

lemma bytes3:
  fixes a b c :: nat
  assumes "b < 256" "c < 256"
  shows "((a * 256 + b) * 256 + c) div 65536 = a"
    and "((a * 256 + b) * 256 + c) div 256 mod 256 = b"
    and "((a * 256 + b) * 256 + c) mod 256 = c"
  using unpack3 [of b 256 c a] assms by simp_all

lemma regroup_qr:
  fixes qa ra qb rb qc rc :: nat
  shows "((qa * 64 + (ra * 16 + qb)) * 64 + (rb * 4 + qc)) * 64 + rc
         = ((qa * 4 + ra) * 256 + (qb * 16 + rb)) * 256 + (qc * 64 + rc)"
  by simp

lemma regroup3:
  fixes a b c :: nat
  shows "((a div 4 * 64 + (a mod 4 * 16 + b div 16)) * 64 + (b mod 16 * 4 + c div 64)) * 64 + c mod 64
         = (a * 256 + b) * 256 + c"
  unfolding regroup_qr by (simp only: div_mult_mod_eq)

lemma sextet_bounds:
  fixes a b c :: nat
  assumes "a < 256" "b < 256" "c < 256"
  shows "a div 4 < 64" "a mod 4 * 16 + b div 16 < 64" "b mod 16 * 4 + c div 64 < 64"
    "c mod 64 < 64" "a mod 4 * 16 < 64" "b mod 16 * 4 < 64"
proof -
  have r: "r < 4 \<Longrightarrow> q < 16 \<Longrightarrow> r * 16 + q < 64" for r q :: nat by simp
  have r2: "r < 16 \<Longrightarrow> q < 4 \<Longrightarrow> r * 4 + q < 64" for r q :: nat by simp
  have b: "b div 16 < 16" using assms(2) less_mult_imp_div_less [of b 16 16] by simp
  have c: "c div 64 < 4" using assms(3) less_mult_imp_div_less [of c 4 64] by simp
  show "a div 4 < 64" using assms(1) less_mult_imp_div_less [of a 64 4] by simp
  show "a mod 4 * 16 + b div 16 < 64" using r [of "a mod 4" "b div 16"] b by simp
  show "b mod 16 * 4 + c div 64 < 64" using r2 [of "b mod 16" "c div 64"] c by simp
  show "c mod 64 < 64" by simp
  show "a mod 4 * 16 < 64" using r [of "a mod 4" 0] by simp
  show "b mod 16 * 4 < 64" using r2 [of "b mod 16" 0] by simp
qed

lemma sextets_bounded:
  "\<forall>b\<in>set bytes. b < 256 \<Longrightarrow> \<forall>s\<in>set (sextets bytes). s < 64"
proof (induction bytes rule: sextets.induct)
  case (1 a b c rest)
  then show ?case using sextet_bounds [of a b c] by simp
next
  case (2 a b)
  then show ?case using sextet_bounds [of a b 0] by simp
next
  case (3 a)
  then show ?case using sextet_bounds [of a 0 0] by simp
next
  case 4
  then show ?case by simp
qed

lemma regroup2_qr:
  fixes qa ra qb rb :: nat
  shows "(qa * 64 + (ra * 16 + qb)) * 64 + rb * 4 = ((qa * 4 + ra) * 256 + (qb * 16 + rb)) * 4"
  by simp

lemma regroup2:
  fixes a b :: nat
  shows "((a div 4 * 64 + (a mod 4 * 16 + b div 16)) * 64 + b mod 16 * 4) div 4 = a * 256 + b"
  unfolding regroup2_qr by (simp only: div_mult_mod_eq nonzero_mult_div_cancel_right)

lemma regroup1_qr:
  fixes qa ra :: nat
  shows "qa * 64 + ra * 16 = (qa * 4 + ra) * 16"
  by simp

lemma regroup1:
  fixes a :: nat
  shows "(a div 4 * 64 + a mod 4 * 16) div 16 = a"
  unfolding regroup1_qr by (simp only: div_mult_mod_eq)

lemma b64_chunk3:
  assumes "b < 256" "c < 256"
  shows "b64_bytes (a div 4 # (a mod 4 * 16 + b div 16) # (b mod 16 * 4 + c div 64) # c mod 64 # sx)
           = a # b # c # b64_bytes sx"
  using assms by (simp only: b64_bytes.simps Let_def regroup3 bytes3)

lemma b64_chunk2:
  assumes "b < 256"
  shows "b64_bytes [a div 4, a mod 4 * 16 + b div 16, b mod 16 * 4] = [a, b]"
  using assms by (simp only: b64_bytes.simps Let_def regroup2) simp

lemma b64_chunk1: "b64_bytes [a div 4, a mod 4 * 16] = [a]"
  by (simp only: b64_bytes.simps Let_def regroup1)

lemma b64_bytes_sextets:
  "\<forall>b\<in>set bytes. b < 256 \<Longrightarrow> b64_bytes (sextets bytes) = bytes"
proof (induction bytes rule: sextets.induct)
  case (1 a b c rest)
  then have "b < 256" "c < 256" "b64_bytes (sextets rest) = rest" by simp_all
  then show ?case by (simp only: sextets.simps b64_chunk3)
next
  case (2 a b)
  then have "b < 256" by simp
  then show ?case by (simp only: sextets.simps b64_chunk2)
next
  case (3 a)
  then show ?case by (simp only: sextets.simps b64_chunk1)
next
  case 4
  then show ?case by simp
qed

lemma b64_value_char: "s < 64 \<Longrightarrow> b64_value (b64_char s) = Some s"
  by (auto simp: b64_value_def b64_char_def)

lemma b64_char_plain:
  assumes "s < 64"
  shows "\<not> ascii_whitespace (b64_char s)" "b64_char s \<noteq> 61" "b64_char s \<noteq> 45"
    "b64_char s \<noteq> 95" "b64_char s \<noteq> 46"
  using assms by (auto simp: b64_char_def ascii_whitespace_def)

lemma mod3_step: "Suc (Suc (Suc n)) mod 3 = n mod 3"
  by presburger

lemma replaceAll_from_url: "replaceAll 95 47 (replaceAll 45 43 s) = map from_url s"
  by (simp add: replaceAll_def from_url_def)

lemma url_char:
  assumes "s < 64"
  shows "to_url (b64_char s) \<noteq> 46" "to_url (b64_char s) \<noteq> 61"
    "from_url (to_url (b64_char s)) = b64_char s"
  using assms by (auto simp: to_url_def from_url_def b64_char_def)

lemma replicate_two: "replicate 2 x = [x, x]"
  by (simp add: numeral_2_eq_2)

lemma base64_encode_chunks:
  "base64_encode (a # b # c # rest) =
     b64_char (a div 4) # b64_char (a mod 4 * 16 + b div 16) # b64_char (b mod 16 * 4 + c div 64)
       # b64_char (c mod 64) # base64_encode rest"
  "base64_encode [a, b] =
     [b64_char (a div 4), b64_char (a mod 4 * 16 + b div 16), b64_char (b mod 16 * 4), 61]"
  "base64_encode [a] = [b64_char (a div 4), b64_char (a mod 4 * 16), 61, 61]"
  "base64_encode [] = []"
  by (simp_all add: base64_encode_def mod3_step replicate_two)

lemma base64url_encode_chunks:
  assumes "a < 256" "b < 256" "c < 256"
  shows "base64url_encode (a # b # c # rest) =
     to_url (b64_char (a div 4)) # to_url (b64_char (a mod 4 * 16 + b div 16))
       # to_url (b64_char (b mod 16 * 4 + c div 64)) # to_url (b64_char (c mod 64))
       # base64url_encode rest"
  "base64url_encode [a, b] =
     [to_url (b64_char (a div 4)), to_url (b64_char (a mod 4 * 16 + b div 16)),
      to_url (b64_char (b mod 16 * 4))]"
  "base64url_encode [a] = [to_url (b64_char (a div 4)), to_url (b64_char (a mod 4 * 16))]"
  using sextet_bounds [OF assms]
  by (simp_all add: base64url_encode_def base64_encode_chunks url_char to_url_def [of 61])

lemma base64url_encode_Nil: "base64url_encode [] = []"
  by (simp add: base64url_encode_def base64_encode_chunks)

lemma normalized_chunk:
  "normalized (c0 # c1 # c2 # c3 # s) =
     from_url c0 # from_url c1 # from_url c2 # from_url c3 # normalized s"
  by (simp add: normalized_def replaceAll_from_url Let_def)

lemma normalized_tail:
  "normalized [c0, c1, c2] = [from_url c0, from_url c1, from_url c2, 61]"
  "normalized [c0, c1] = [from_url c0, from_url c1, 61, 61]"
  "normalized [] = []"
  by (simp_all add: normalized_def replaceAll_from_url Let_def replicate_two from_url_def [of 61])

lemma normalized_base64url_encode:
  "\<forall>b\<in>set bytes. b < 256 \<Longrightarrow> normalized (base64url_encode bytes) = base64_encode bytes"
proof (induction bytes rule: sextets.induct)
  case (1 a b c rest)
  then have b: "a < 256" "b < 256" "c < 256" and ih: "normalized (base64url_encode rest) = base64_encode rest"
    by simp_all
  show ?case
    using sextet_bounds [OF b]
    by (simp add: base64url_encode_chunks(1) [OF b] normalized_chunk ih base64_encode_chunks url_char)
next
  case (2 a b)
  then have b: "a < 256" "b < 256" "(0::nat) < 256" by simp_all
  show ?case
    using sextet_bounds [OF b]
    by (simp add: base64url_encode_chunks(2) [OF b] normalized_tail base64_encode_chunks url_char)
next
  case (3 a)
  then have b: "a < 256" "(0::nat) < 256" "(0::nat) < 256" by simp_all
  show ?case
    using sextet_bounds [OF b]
    by (simp add: base64url_encode_chunks(3) [OF b] normalized_tail base64_encode_chunks url_char)
next
  case 4
  show ?case by (simp add: base64url_encode_Nil normalized_tail base64_encode_chunks)
qed

lemma no_dot_in_base64url:
  "\<forall>b\<in>set bytes. b < 256 \<Longrightarrow> 46 \<notin> set (base64url_encode bytes)"
proof (induction bytes rule: sextets.induct)
  case (1 a b c rest)
  then have b: "a < 256" "b < 256" "c < 256" and ih: "46 \<notin> set (base64url_encode rest)"
    by simp_all
  show ?case
    using sextet_bounds [OF b] url_char(1)
    by (simp add: base64url_encode_chunks(1) [OF b] ih)
next
  case (2 a b)
  then have b: "a < 256" "b < 256" "(0::nat) < 256" by simp_all
  show ?case
    using sextet_bounds [OF b] url_char(1)
    by (simp add: base64url_encode_chunks(2) [OF b])
next
  case (3 a)
  then have b: "a < 256" "(0::nat) < 256" "(0::nat) < 256" by simp_all
  show ?case
    using sextet_bounds [OF b] url_char(1)
    by (simp add: base64url_encode_chunks(3) [OF b])
next
  case 4
  show ?case by (simp add: base64url_encode_Nil)
qed

lemma strip_padding_append:
  assumes "length (xs @ replicate p 61) mod 4 = 0" "p \<le> 2" "61 \<notin> set xs"
  shows "strip_padding (xs @ replicate p 61) = xs"
proof -
  have l: "xs \<noteq> [] \<Longrightarrow> last xs \<noteq> 61" using assms(3) last_in_set by metis
  consider "p = 0" | "p = 1" | "p = 2" using assms(2) by linarith
  then show ?thesis
  proof cases
    case 1
    then show ?thesis using l by (auto simp: strip_padding_def)
  next
    case 2
    then have "xs \<noteq> []" using assms(1) by auto
    then show ?thesis using 2 l assms(1) by (simp add: strip_padding_def butlast_append)
  next
    case 3
    then show ?thesis using assms(1) by (simp add: strip_padding_def replicate_two butlast_append)
  qed
qed

lemma base64_encode_length: "length (base64_encode bytes) mod 4 = 0"
  by (induction bytes rule: sextets.induct) (simp_all add: base64_encode_chunks)

lemma sextets_length: "length (sextets bytes) mod 4 \<noteq> 1"
  by (induction bytes rule: sextets.induct) simp_all

lemma those_b64_value:
  "\<forall>s\<in>set sx. s < 64 \<Longrightarrow> those (map (b64_value \<circ> b64_char) sx) = Some sx"
  by (induction sx) (simp_all add: b64_value_char)

lemma atob_base64_encode:
  assumes "\<forall>b\<in>set bytes. b < 256"
  shows "browser_atob (base64_encode bytes) = Inr bytes"
proof -
  let ?sx = "sextets bytes"
  let ?xs = "map b64_char ?sx"
  let ?p = "(3 - length bytes mod 3) mod 3"
  have sx: "\<forall>s\<in>set ?sx. s < 64" using sextets_bounded [OF assms] .
  have enc: "base64_encode bytes = ?xs @ replicate ?p 61" by (simp add: base64_encode_def)
  have ws: "filter (\<lambda>c. \<not> ascii_whitespace c) (base64_encode bytes) = base64_encode bytes"
    unfolding enc using sx b64_char_plain(1) by (auto simp: ascii_whitespace_def)
  have no61: "61 \<notin> set ?xs" using sx b64_char_plain(2) by auto
  have len: "length (?xs @ replicate ?p 61) mod 4 = 0"
    using base64_encode_length [of bytes] unfolding enc .
  have p: "?p \<le> 2" by linarith
  have strip: "strip_padding (base64_encode bytes) = ?xs"
    unfolding enc by (rule strip_padding_append [OF len p no61])
  have l1: "length ?xs mod 4 \<noteq> 1" using sextets_length [of bytes] by simp
  show ?thesis
    using l1
    by (simp add: browser_atob_def forgiving_base64_decode_def ws strip
        those_b64_value [OF sx] b64_bytes_sextets [OF assms])
qed

lemma hex_value_digit: "d < 16 \<Longrightarrow> hex_value (hex_digit d) = Some d"
  by (auto simp: hex_value_def hex_digit_def)

lemma percent_byte:
  assumes "b < 256"
  shows "percent b = [37, hex_digit (b div 16), hex_digit (b mod 16)]"
proof (cases "b < 16")
  case True
  then have "toString 16 b = [hex_digit b]" by (simp add: toString.simps)
  then show ?thesis using True by (simp add: percent_def padStart_def hex_digit_def)
next
  case False
  have "b div 16 < 16" using assms less_mult_imp_div_less [of b 16 16] by simp
  then have "toString 16 (b div 16) = [hex_digit (b div 16)]" by (simp add: toString.simps)
  then have "toString 16 b = [hex_digit (b div 16), hex_digit (b mod 16)]"
    using False by (subst toString.simps) simp
  then show ?thesis by (simp add: percent_def padStart_def)
qed

lemma escape_at_percent:
  assumes "b < 256"
  shows "escape_at (percent b @ rest) = Some (b, rest)"
proof -
  have "b div 16 < 16" using assms less_mult_imp_div_less [of b 16 16] by simp
  then show ?thesis
    by (simp add: percent_byte [OF assms] escape_at_def hex_value_digit)
qed

lemma Decode_escape:
  assumes "b < 256"
  shows "Decode (percent b @ rest) =
     (let n = leading_ones b in
      if n = 0 then (case Decode rest of Inl e \<Rightarrow> Inl e | Inr r \<Rightarrow> Inr (b # r))
      else if n = 1 \<or> 4 < n then Inl URIError
      else
        (case continuation_octets (n - 1) rest of
           None \<Rightarrow> Inl URIError
         | Some (octets, rest') \<Rightarrow>
             (case utf8_code_point (b # octets) of
                None \<Rightarrow> Inl URIError
              | Some v \<Rightarrow>
                  (case Decode rest' of
                     Inl e \<Rightarrow> Inl e
                   | Inr r \<Rightarrow> Inr (UTF16EncodeCodePoint v @ r)))))"
proof -
  have e: "escape_at (37 # hex_digit (b div 16) # hex_digit (b mod 16) # rest) = Some (b, rest)"
    using escape_at_percent [OF assms, of rest] by (simp add: percent_byte [OF assms])
  show ?thesis
    unfolding percent_byte [OF assms] by (simp add: Decode.simps(2) e)
qed

lemma continuation_octets_percent:
  "\<forall>b\<in>set bs. b < 256 \<Longrightarrow>
     continuation_octets (length bs) (concat (map percent bs) @ rest) = Some (bs, rest)"
  by (induction bs) (simp_all add: escape_at_percent)

lemma mod_offset:
  fixes q k m :: nat
  shows "q < k \<Longrightarrow> (m * k + q) mod k = q"
  by simp

lemma utf8_two:
  assumes "128 \<le> cp" "cp < 2048"
  shows "192 + cp div 64 < 256" "128 + cp mod 64 < 256"
    "leading_ones (192 + cp div 64) = 2"
    "utf8_code_point [192 + cp div 64, 128 + cp mod 64] = Some cp"
proof -
  have q: "cp div 64 < 32" using assms(2) less_mult_imp_div_less [of cp 32 64] by simp
  have r: "cp mod 64 < 64" by simp
  show "192 + cp div 64 < 256" using q by simp
  show "128 + cp mod 64 < 256" using r by simp
  show "leading_ones (192 + cp div 64) = 2" using q by (simp add: leading_ones_def)
  have m0: "(192 + cp div 64) mod 32 = cp div 64" using mod_offset [OF q, of 6] by simp
  have m1: "(128 + cp mod 64) mod 64 = cp mod 64" using mod_offset [OF r, of 2] by simp
  show "utf8_code_point [192 + cp div 64, 128 + cp mod 64] = Some cp"
    using assms(1) by (simp add: utf8_code_point_def m0 m1 continuation_byte_def)
qed

lemma div_div_64:
  fixes n :: nat
  shows "n div 4096 = n div 64 div 64" "n div 262144 = n div 64 div 64 div 64"
  using div_mult2_eq [of n 64 64] div_mult2_eq [of n 4096 64] by simp_all

lemma recompose3:
  fixes n :: nat
  shows "(n div 4096 * 64 + n div 64 mod 64) * 64 + n mod 64 = n"
  unfolding div_div_64 by (simp only: div_mult_mod_eq)

lemma recompose4:
  fixes n :: nat
  shows "((n div 262144 * 64 + n div 4096 mod 64) * 64 + n div 64 mod 64) * 64 + n mod 64 = n"
  unfolding div_div_64 by (simp only: div_mult_mod_eq)

lemma utf8_three:
  assumes "2048 \<le> cp" "cp < 65536" "scalar_value cp"
  shows "224 + cp div 4096 < 256" "128 + cp div 64 mod 64 < 256" "128 + cp mod 64 < 256"
    "leading_ones (224 + cp div 4096) = 3"
    "utf8_code_point [224 + cp div 4096, 128 + cp div 64 mod 64, 128 + cp mod 64] = Some cp"
proof -
  have q: "cp div 4096 < 16" using assms(2) less_mult_imp_div_less [of cp 16 4096] by simp
  have r1: "cp div 64 mod 64 < 64" and r: "cp mod 64 < 64" by simp_all
  show "224 + cp div 4096 < 256" using q by simp
  show "128 + cp div 64 mod 64 < 256" using r1 by simp
  show "128 + cp mod 64 < 256" using r by simp
  show "leading_ones (224 + cp div 4096) = 3" using q by (simp add: leading_ones_def)
  have m0: "(224 + cp div 4096) mod 16 = cp div 4096" using mod_offset [OF q, of 14] by simp
  have m1: "(128 + cp div 64 mod 64) mod 64 = cp div 64 mod 64"
    using mod_offset [OF r1, of 2] by simp
  have m2: "(128 + cp mod 64) mod 64 = cp mod 64" using mod_offset [OF r, of 2] by simp
  have s: "\<not> (55296 \<le> cp \<and> cp \<le> 57343)" using assms(3) by (auto simp: scalar_value_def)
  show "utf8_code_point [224 + cp div 4096, 128 + cp div 64 mod 64, 128 + cp mod 64] = Some cp"
    using assms(1) s
    by (simp only: utf8_code_point_def list.case Let_def m0 m1 m2 recompose3 continuation_byte_def)
       simp
qed

lemma utf8_four:
  assumes "65536 \<le> cp" "cp \<le> 1114111"
  shows "240 + cp div 262144 < 256" "128 + cp div 4096 mod 64 < 256"
    "128 + cp div 64 mod 64 < 256" "128 + cp mod 64 < 256"
    "leading_ones (240 + cp div 262144) = 4"
    "utf8_code_point [240 + cp div 262144, 128 + cp div 4096 mod 64, 128 + cp div 64 mod 64,
        128 + cp mod 64] = Some cp"
proof -
  have q: "cp div 262144 < 8" using assms(2) less_mult_imp_div_less [of cp 8 262144] by simp
  have r2: "cp div 4096 mod 64 < 64" and r1: "cp div 64 mod 64 < 64" and r: "cp mod 64 < 64"
    by simp_all
  show "240 + cp div 262144 < 256" using q by simp
  show "128 + cp div 4096 mod 64 < 256" using r2 by simp
  show "128 + cp div 64 mod 64 < 256" using r1 by simp
  show "128 + cp mod 64 < 256" using r by simp
  show "leading_ones (240 + cp div 262144) = 4" using q by (simp add: leading_ones_def)
  have m0: "(240 + cp div 262144) mod 8 = cp div 262144" using mod_offset [OF q, of 30] by simp
  have m1: "(128 + cp div 4096 mod 64) mod 64 = cp div 4096 mod 64"
    using mod_offset [OF r2, of 2] by simp
  have m2: "(128 + cp div 64 mod 64) mod 64 = cp div 64 mod 64"
    using mod_offset [OF r1, of 2] by simp
  have m3: "(128 + cp mod 64) mod 64 = cp mod 64" using mod_offset [OF r, of 2] by simp
  show "utf8_code_point [240 + cp div 262144, 128 + cp div 4096 mod 64, 128 + cp div 64 mod 64,
        128 + cp mod 64] = Some cp"
    using assms
    by (simp only: utf8_code_point_def list.case Let_def m0 m1 m2 m3 recompose4
        continuation_byte_def) simp
qed

lemma Decode_multibyte:
  assumes "b0 < 256" "\<forall>b\<in>set bs. b < 256" "leading_ones b0 = Suc (length bs)"
    and "1 \<le> length bs" "length bs \<le> 3" "utf8_code_point (b0 # bs) = Some cp"
  shows "Decode (percent b0 @ concat (map percent bs) @ rest) =
           (case Decode rest of Inl e \<Rightarrow> Inl e | Inr r \<Rightarrow> Inr (UTF16EncodeCodePoint cp @ r))"
proof -
  have n: "leading_ones b0 \<noteq> 0" "\<not> (leading_ones b0 = 1 \<or> 4 < leading_ones b0)"
    "leading_ones b0 - 1 = length bs"
    using assms(3-5) by auto
  show ?thesis
    unfolding Decode_escape [OF assms(1)] Let_def
    by (simp only: n if_False continuation_octets_percent [OF assms(2)] assms(6)
        option.case prod.case)
qed

lemma code_point_ranges:
  assumes "scalar_value cp"
  obtains "cp < 128" | "128 \<le> cp" "cp < 2048" | "2048 \<le> cp" "cp < 65536"
    | "65536 \<le> cp" "cp \<le> 1114111"
proof -
  have "cp \<le> 1114111" using assms by (auto simp: scalar_value_def)
  then have "cp < 128 \<or> (128 \<le> cp \<and> cp < 2048) \<or> (2048 \<le> cp \<and> cp < 65536)
      \<or> (65536 \<le> cp \<and> cp \<le> 1114111)"
    by linarith
  then show ?thesis using that by blast
qed

lemma Decode_code_point:
  assumes "scalar_value cp"
  shows "Decode (concat (map percent (utf8_encode_cp cp)) @ rest) =
           (case Decode rest of Inl e \<Rightarrow> Inl e | Inr r \<Rightarrow> Inr (UTF16EncodeCodePoint cp @ r))"
proof -
  show ?thesis
  proof (cases rule: code_point_ranges [OF assms])
    case 1
    then have "cp < 256" by simp
    then show ?thesis
      using 1
      by (simp add: utf8_encode_cp_def Decode_escape leading_ones_def UTF16EncodeCodePoint_def
          split: sum.split)
  next
    case 2
    have e: "utf8_encode_cp cp = [192 + cp div 64, 128 + cp mod 64]"
      using 2 by (simp add: utf8_encode_cp_def)
    show ?thesis
      unfolding e
      using Decode_multibyte [of "192 + cp div 64" "[128 + cp mod 64]" cp rest] utf8_two [OF 2]
      by simp
  next
    case 3
    have e: "utf8_encode_cp cp = [224 + cp div 4096, 128 + cp div 64 mod 64, 128 + cp mod 64]"
      using 3 by (simp add: utf8_encode_cp_def)
    show ?thesis
      unfolding e
      using Decode_multibyte [of "224 + cp div 4096" "[128 + cp div 64 mod 64, 128 + cp mod 64]" cp rest]
        utf8_three [OF 3 assms]
      by simp
  next
    case 4
    have e: "utf8_encode_cp cp = [240 + cp div 262144, 128 + cp div 4096 mod 64,
        128 + cp div 64 mod 64, 128 + cp mod 64]"
      using 4 by (simp add: utf8_encode_cp_def)
    show ?thesis
      unfolding e
      using Decode_multibyte [of "240 + cp div 262144"
          "[128 + cp div 4096 mod 64, 128 + cp div 64 mod 64, 128 + cp mod 64]" cp rest]
        utf8_four [OF 4]
      by simp
  qed
qed

lemma Decode_utf8:
  "\<forall>cp\<in>set cps. scalar_value cp \<Longrightarrow>
     Decode (concat (map percent (utf8_encode cps))) = Inr (utf16_encode cps)"
proof (induction cps)
  case Nil
  then show ?case by (simp add: utf8_encode_def utf16_encode_def Decode.simps)
next
  case (Cons cp cps)
  then have ih: "Decode (concat (map percent (utf8_encode cps))) = Inr (utf16_encode cps)"
    and s: "scalar_value cp" by simp_all
  show ?case
    using Decode_code_point [OF s, of "concat (map percent (utf8_encode cps))"]
    by (simp add: utf8_encode_def utf16_encode_def ih [unfolded utf8_encode_def utf16_encode_def])
qed

lemma utf8_bytes:
  "\<forall>cp\<in>set cps. scalar_value cp \<Longrightarrow> \<forall>b\<in>set (utf8_encode cps). b < 256"
proof (induction cps)
  case Nil
  then show ?case by (simp add: utf8_encode_def)
next
  case (Cons cp cps)
  then have s: "scalar_value cp" and ih: "\<forall>b\<in>set (utf8_encode cps). b < 256" by simp_all
  have "\<forall>b\<in>set (utf8_encode_cp cp). b < 256"
  proof (cases rule: code_point_ranges [OF s])
    case 1
    then show ?thesis by (simp add: utf8_encode_cp_def)
  next
    case 2
    then show ?thesis using utf8_two(1,2) [OF 2] by (simp add: utf8_encode_cp_def)
  next
    case 3
    then show ?thesis using utf8_three(1-3) [OF 3 s] by (simp add: utf8_encode_cp_def)
  next
    case 4
    then show ?thesis using utf8_four(1-4) [OF 4] by (simp add: utf8_encode_cp_def)
  qed
  then show ?case using ih by (auto simp: utf8_encode_def)
qed

lemma utf16_encode_nonempty: "cps \<noteq> [] \<Longrightarrow> utf16_encode cps \<noteq> []"
  by (cases cps) (simp_all add: utf16_encode_def UTF16EncodeCodePoint_def)

lemma split_append:
  "sep \<notin> set h \<Longrightarrow> split sep (h @ sep # r) = h # split sep r"
  by (induction h) (auto split: list.splits)

lemma split_credential:
  assumes "of_char CHR ''.'' \<notin> set header" "of_char CHR ''.'' \<notin> set payload"
  shows "split (of_char CHR ''.'') (credential header payload signature)
           = header # payload # split (of_char CHR ''.'') signature"
  using assms by (simp add: credential_def split_append)

lemma base64UrlDecode_encode:
  assumes "\<forall>cp\<in>set cps. scalar_value cp"
  shows "base64UrlDecode (browser parse) (base64url_encode (utf8_encode cps)) = Inr (utf16_encode cps)"
proof -
  have b: "\<forall>b\<in>set (utf8_encode cps). b < 256" using utf8_bytes [OF assms] .
  show ?thesis
    by (simp add: base64UrlDecode_def browser_def normalized_base64url_encode [OF b]
        atob_base64_encode [OF b] Decode_utf8 [OF assms])
qed

text \<open>
  Claim C8. Round trip: take a claims record whose JSON text is a non-empty sequence of
  Unicode scalar values that \<^verbatim>\<open>JSON.parse\<close> reads back as the record. Encode the text as
  UTF-8, the bytes as URL-safe base64 without padding, and place the result as the
  second segment after a first segment free of dots. The credential decoder, run with
  the browser's \<^verbatim>\<open>atob\<close> and \<^verbatim>\<open>decodeURIComponent\<close>, returns the original record, whatever
  the signature segment and the token store are.
\<close>

theorem claims_round_trip:
  assumes "\<forall>cp\<in>set (stringify claims). scalar_value cp"
    and "stringify claims \<noteq> []"
    and "parse (utf16_encode (stringify claims)) = Inr claims"
    and "of_char CHR ''.'' \<notin> set header"
  shows "getTokenPayload (browser parse) w
           (Some (credential header (encode_claims stringify claims) signature)) = Inr claims"
proof -
  let ?p = "encode_claims stringify claims"
  have b: "\<forall>b\<in>set (utf8_encode (stringify claims)). b < 256" using utf8_bytes [OF assms(1)] .
  have nd: "of_char CHR ''.'' \<notin> set ?p"
    using no_dot_in_base64url [OF b] by (simp add: encode_claims_def)
  have sp: "split (of_char CHR ''.'') (credential header ?p signature)
           = header # ?p # split (of_char CHR ''.'') signature"
    by (rule split_credential [OF assms(4) nd])
  have ne: "credential header ?p signature \<noteq> []" by (simp add: credential_def)
  have dec: "base64UrlDecode (browser parse) ?p = Inr (utf16_encode (stringify claims))"
    unfolding encode_claims_def by (rule base64UrlDecode_encode [OF assms(1)])
  have jp: "JSON_parse (browser parse) = parse" by (simp add: browser_def)
  have seg: "\<not> length (split (of_char CHR ''.'') (credential header ?p signature)) < 2"
    "split (of_char CHR ''.'') (credential header ?p signature) ! 1 = ?p"
    unfolding sp by simp_all
  show ?thesis
    using seg dec jp utf16_encode_nonempty [OF assms(2)] assms(3) ne
    by (simp add: getTokenPayload_Some)
qed

theorem claims_round_trip_witness:
  \<open>list_all scalar_value (sample_JSON_stringify sample_claims)
   \<and> sample_JSON_stringify sample_claims \<noteq> []
   \<and> sample_JSON_parse (utf16_encode (sample_JSON_stringify sample_claims)) = Inr sample_claims
   \<and> of_char CHR ''.'' \<notin> set (js ''eyJhbGciOiJIUzI1NiJ9'')
   \<and> credential (js ''eyJhbGciOiJIUzI1NiJ9'') (encode_claims sample_JSON_stringify sample_claims)
         (js ''c2ln'')
       = js ''eyJhbGciOiJIUzI1NiJ9.eyJzdWIiOiJKb8Ojb-KCrPCfmIAifQ.c2ln''
   \<and> getTokenPayload (browser sample_JSON_parse) None
         (Some (js ''eyJhbGciOiJIUzI1NiJ9.eyJzdWIiOiJKb8Ojb-KCrPCfmIAifQ.c2ln''))
       = Inr sample_claims\<close>
proof -
  have h1: "\<forall>cp\<in>set (sample_JSON_stringify sample_claims). scalar_value cp" by code_simp
  have h2: "sample_JSON_stringify sample_claims \<noteq> []" by code_simp
  have h3: "sample_JSON_parse (utf16_encode (sample_JSON_stringify sample_claims)) = Inr sample_claims"
    by code_simp
  have h4: "of_char CHR ''.'' \<notin> set (js ''eyJhbGciOiJIUzI1NiJ9'')" by code_simp
  have c: "credential (js ''eyJhbGciOiJIUzI1NiJ9'') (encode_claims sample_JSON_stringify sample_claims)
         (js ''c2ln'')
       = js ''eyJhbGciOiJIUzI1NiJ9.eyJzdWIiOiJKb8Ojb-KCrPCfmIAifQ.c2ln''"
    by code_simp
  show ?thesis
    using claims_round_trip [of sample_JSON_stringify sample_claims sample_JSON_parse
        "js ''eyJhbGciOiJIUzI1NiJ9''" None "js ''c2ln''"] h1 h2 h3 h4 c
    by (simp add: list_all_iff)
qed

end
